theory Spec2Isabelle
  imports Complex_Main "HOL-Library.Multiset"
begin

section \<open>The standings engine of \<^verbatim>\<open>src/models/Leaderboard.ts\<close>\<close>

text \<open>
  The theory embeds the leaderboard model of the backend: the entry type, the instance
  methods that read and write \<^verbatim>\<open>this.standings\<close>, the static helper
  \<^verbatim>\<open>createEntryFromMatch\<close> and the validator of the \<^verbatim>\<open>standings\<close> column; and, of the
  \<^verbatim>\<open>Match\<close> model in \<^verbatim>\<open>src/models/Cup.ts\<close>, the score methods and the validator that reject
  a match result.

  Modelling decisions.
  \<^item> A TypeScript \<^verbatim>\<open>number\<close> holding a counter or a score that is credited is an \<open>int\<close>:
    the counters are integers far below \<open>2^53\<close>, where the arithmetic of doubles is
    exact. Where a value is only checked, by a validator or a guard, a \<^verbatim>\<open>number\<close> is any
    double, \<^verbatim>\<open>NaN\<close> and the infinities included.
  \<^item> A team name is a \<open>string\<close> of ASCII code units (codes 0 to 127); names with other
    code units are outside the model.
  \<^item> The methods touch no field of the instance but \<^verbatim>\<open>standings\<close>, so the state of an
    instance is its standings array, passed in and returned.
\<close>

subsection \<open>Data model\<close>

record LeaderboardEntry =
  teamName :: string
  played :: int
  won :: int
  drawn :: int
  lost :: int
  goalsFor :: int
  goalsAgainst :: int
  goalDifference :: int
  points :: int

type_synonym Standings = "LeaderboardEntry list"

subsection \<open>Built-ins of the language\<close>

text \<open>\<^verbatim>\<open>String.prototype.toLowerCase\<close> on ASCII: the letters A-Z (codes 65 to 90) move
  to a-z, every other code unit stays.\<close>

definition isUpperCode :: "nat \<Rightarrow> bool" where
  "isUpperCode n = (65 \<le> n \<and> n \<le> 90)"

definition toLowerChar :: "char \<Rightarrow> char" where
  "toLowerChar c = (if isUpperCode (of_char c) then char_of (of_char c + (32::nat)) else c)"

definition toLowerCase :: "string \<Rightarrow> string" where
  "toLowerCase s = map toLowerChar s"

text \<open>\<^verbatim>\<open>String.prototype.localeCompare\<close> with no options compares by the default
  collation (CLDR root, all levels significant). On ASCII that is:
  \<^item> the control characters 0 to 8, 14 to 31 and 127 are ignored altogether, so two
    different strings that differ in them only compare equal;
  \<^item> of what is left, first the primary weights of the whole strings are compared, where
    a letter and its capital share a weight and the characters rank as
    tab, line feed, vertical tab, form feed, carriage return, space,
    \<^verbatim>\<open>_ - , ; : ! ? . ' " ( ) [ ] { } @ * / \ & # % ` ^ + < = > | ~ $\<close>,
    the digits, the letters;
  \<^item> when the primary weights agree, the first difference of case decides, lower case
    before upper case.
  Code units above 127 are outside the modelled domain (their weights depend on the
  whole collation table); they are ranked behind the letters by code so that the function
  stays total, and no statement below that needs names to be told apart covers them.\<close>

definition ignorableCode :: "nat \<Rightarrow> bool" where
  "ignorableCode n = (n < 9 \<or> (13 < n \<and> n < 32) \<or> n = 127)"

definition collationElements :: "string \<Rightarrow> string" where
  "collationElements s = filter (\<lambda>c. \<not> ignorableCode (of_char c)) s"

definition punctuationOrder :: "nat list" where
  "punctuationOrder =
     [32, 95, 45, 44, 59, 58, 33, 63, 46, 39, 34, 40, 41, 91, 93, 123, 125, 64, 42, 47, 92,
      38, 35, 37, 96, 94, 43, 60, 61, 62, 124, 126, 36]"

definition collationOrder :: "nat list" where
  "collationOrder = [9 ..< 14] @ punctuationOrder @ [48 ..< 58] @ [97 ..< 123]"

fun indexOf :: "nat \<Rightarrow> nat list \<Rightarrow> nat option" where
  "indexOf n [] = None"
| "indexOf n (m # ms) =
     (if n = m then Some 0
      else (case indexOf n ms of None \<Rightarrow> None | Some i \<Rightarrow> Some (Suc i)))"

definition primaryWeight :: "char \<Rightarrow> nat" where
  "primaryWeight c =
     (let n = of_char (toLowerChar c)
      in case indexOf n collationOrder of
           Some i \<Rightarrow> i
         | None \<Rightarrow> length collationOrder + n)"

definition tertiaryWeight :: "char \<Rightarrow> nat" where
  "tertiaryWeight c = (if isUpperCode (of_char c) then 1 else 0)"

fun compareWeights :: "nat list \<Rightarrow> nat list \<Rightarrow> int" where
  "compareWeights [] [] = 0"
| "compareWeights [] (w # ws) = -1"
| "compareWeights (v # vs) [] = 1"
| "compareWeights (v # vs) (w # ws) =
     (if v < w then -1 else if w < v then 1 else compareWeights vs ws)"

definition localeCompare :: "string \<Rightarrow> string \<Rightarrow> int" where
  "localeCompare a b =
     (let a' = collationElements a;
          b' = collationElements b;
          p = compareWeights (map primaryWeight a') (map primaryWeight b')
      in if p \<noteq> 0 then p
         else compareWeights (map tertiaryWeight a') (map tertiaryWeight b'))"

text \<open>\<^verbatim>\<open>Array.prototype.findIndex\<close>: the index of the first element that satisfies the
  predicate, \<open>-1\<close> when there is none.\<close>

fun findIndex :: "('a \<Rightarrow> bool) \<Rightarrow> 'a list \<Rightarrow> int" where
  "findIndex p [] = -1"
| "findIndex p (x # xs) =
     (if p x then 0
      else (let i = findIndex p xs in if i < 0 then -1 else i + 1))"

text \<open>\<^verbatim>\<open>Array.prototype.slice(0, end)\<close>: a negative \<^verbatim>\<open>end\<close> counts from the end of the
  array, and the bounds are clamped to the array.\<close>

definition sliceFromZero :: "'a list \<Rightarrow> int \<Rightarrow> 'a list" where
  "sliceFromZero xs end' =
     (let len = int (length xs);
          final = (if end' < 0 then max (len + end') 0 else min end' len)
      in take (nat final) xs)"

text \<open>\<^verbatim>\<open>Array.prototype.splice(index, 1)\<close> for an index inside the array: the element at
  the index is removed, the rest keeps its order.\<close>

definition spliceOne :: "'a list \<Rightarrow> nat \<Rightarrow> 'a list" where
  "spliceOne xs i = take i xs @ drop (Suc i) xs"

text \<open>\<^verbatim>\<open>Array.prototype.sort(compareFn)\<close> is stable: with a comparator that orders its
  arguments consistently the result is the one stable arrangement, which insertion from
  the right computes. An element goes in front of the first one it does not rank behind.\<close>

fun insertBy :: "('a \<Rightarrow> 'a \<Rightarrow> int) \<Rightarrow> 'a \<Rightarrow> 'a list \<Rightarrow> 'a list" where
  "insertBy cmp x [] = [x]"
| "insertBy cmp x (y # ys) =
     (if cmp x y \<le> 0 then x # y # ys else y # insertBy cmp x ys)"

fun sortBy :: "('a \<Rightarrow> 'a \<Rightarrow> int) \<Rightarrow> 'a list \<Rightarrow> 'a list" where
  "sortBy cmp [] = []"
| "sortBy cmp (x # xs) = insertBy cmp x (sortBy cmp xs)"

subsection \<open>The methods of \<^verbatim>\<open>Leaderboard\<close>\<close>

text \<open>The predicate used by every lookup: the names agree after \<^verbatim>\<open>toLowerCase\<close>.\<close>

definition sameTeam :: "string \<Rightarrow> LeaderboardEntry \<Rightarrow> bool" where
  "sameTeam name standing = (toLowerCase (teamName standing) = toLowerCase name)"

definition getTeamStanding :: "Standings \<Rightarrow> string \<Rightarrow> LeaderboardEntry option" where
  "getTeamStanding standings name = find (sameTeam name) standings"

text \<open>\<^verbatim>\<open>getTopTeams\<close> returns the slice; the second component is \<^verbatim>\<open>this.standings\<close>
  after the call.\<close>

definition getTopTeams :: "Standings \<Rightarrow> int \<Rightarrow> LeaderboardEntry list \<times> Standings" where
  "getTopTeams standings count' = (sliceFromZero standings count', standings)"

text \<open>The comparator handed to \<^verbatim>\<open>sort\<close> in \<^verbatim>\<open>sortStandings\<close>.\<close>

definition compareStandings :: "LeaderboardEntry \<Rightarrow> LeaderboardEntry \<Rightarrow> int" where
  "compareStandings a b =
     (if points b \<noteq> points a then points b - points a
      else if goalDifference b \<noteq> goalDifference a then goalDifference b - goalDifference a
      else if goalsFor b \<noteq> goalsFor a then goalsFor b - goalsFor a
      else localeCompare (teamName a) (teamName b))"

definition sortStandings :: "Standings \<Rightarrow> Standings" where
  "sortStandings standings = sortBy compareStandings standings"

definition addOrUpdateTeam :: "Standings \<Rightarrow> LeaderboardEntry \<Rightarrow> Standings" where
  "addOrUpdateTeam standings entry =
     (let existingIndex = findIndex (sameTeam (teamName entry)) standings
      in sortStandings
           (if existingIndex \<ge> 0 then standings[nat existingIndex := entry]
            else standings @ [entry]))"

definition removeTeam :: "Standings \<Rightarrow> string \<Rightarrow> bool \<times> Standings" where
  "removeTeam standings name =
     (let index = findIndex (sameTeam name) standings
      in if index \<ge> 0 then (True, spliceOne standings (nat index))
         else (False, standings))"

text \<open>The object literal that \<^verbatim>\<open>createEntryFromMatch\<close> starts from when it is given no
  existing entry.\<close>


definition freshEntry :: "string \<Rightarrow> LeaderboardEntry" where
  "freshEntry name =
     \<lparr>teamName = name, played = 0, won = 0, drawn = 0, lost = 0, goalsFor = 0,
      goalsAgainst = 0, goalDifference = 0, points = 0\<rparr>"

text \<open>\<^verbatim>\<open>createEntryFromMatch\<close> updates the object it was given (or the fresh literal) field
  by field and returns it. When the object is an element of the standings array, as it is
  when the caller got it from \<^verbatim>\<open>getTeamStanding\<close>, the array holds the update already;
  \<^verbatim>\<open>addOrUpdateTeam\<close> then finds the same index and stores the same object there, so
  passing the entry on as a value gives the same table.\<close>

definition createEntryFromMatch ::
  "string \<Rightarrow> LeaderboardEntry option \<Rightarrow> bool \<Rightarrow> int \<Rightarrow> int \<Rightarrow> LeaderboardEntry" where
  "createEntryFromMatch name existingEntry isHome homeScore awayScore =
     (let baseEntry = (case existingEntry of Some e \<Rightarrow> e | None \<Rightarrow> freshEntry name);
          teamScore = (if isHome then homeScore else awayScore);
          opponentScore = (if isHome then awayScore else homeScore);
          baseEntry = baseEntry\<lparr>played := played baseEntry + 1\<rparr>;
          baseEntry = baseEntry\<lparr>goalsFor := goalsFor baseEntry + teamScore\<rparr>;
          baseEntry = baseEntry\<lparr>goalsAgainst := goalsAgainst baseEntry + opponentScore\<rparr>;
          baseEntry = baseEntry\<lparr>goalDifference := goalsFor baseEntry - goalsAgainst baseEntry\<rparr>
      in if teamScore > opponentScore
         then baseEntry\<lparr>won := won baseEntry + 1, points := points baseEntry + 3\<rparr>
         else if teamScore = opponentScore
         then baseEntry\<lparr>drawn := drawn baseEntry + 1, points := points baseEntry + 1\<rparr>
         else baseEntry\<lparr>lost := lost baseEntry + 1\<rparr>)"

subsection \<open>Applying a match result\<close>

text \<open>Modelled from the spec: \<^verbatim>\<open>applyMatchResult\<close>, which the repository does not define.
  The spec composes it from the methods above: each team's entry is looked up by name,
  passed through \<^verbatim>\<open>createEntryFromMatch\<close> and upserted with \<^verbatim>\<open>addOrUpdateTeam\<close>, the
  home team first.\<close>

definition applyTeamResult :: "Standings \<Rightarrow> string \<Rightarrow> bool \<Rightarrow> int \<Rightarrow> int \<Rightarrow> Standings" where
  "applyTeamResult standings name isHome homeScore awayScore =
     addOrUpdateTeam standings
       (createEntryFromMatch name (getTeamStanding standings name) isHome homeScore awayScore)"

definition applyMatchResult :: "Standings \<Rightarrow> string \<Rightarrow> string \<Rightarrow> int \<Rightarrow> int \<Rightarrow> Standings" where
  "applyMatchResult standings homeTeam awayTeam homeScore awayScore =
     applyTeamResult (applyTeamResult standings homeTeam True homeScore awayScore)
       awayTeam False homeScore awayScore"

text \<open>Modelled from the spec: a sequence of completed matches
  \<^verbatim>\<open>{homeTeam, awayTeam, homeScore, awayScore}\<close>, applied from the left.\<close>

fun applyMatches :: "Standings \<Rightarrow> (string \<times> string \<times> int \<times> int) list \<Rightarrow> Standings" where
  "applyMatches standings [] = standings"
| "applyMatches standings ((h, a, hs, as) # ms) =
     applyMatches (applyMatchResult standings h a hs as) ms"

subsection \<open>The validator of the \<^verbatim>\<open>standings\<close> attribute\<close>

text \<open>The validator \<^verbatim>\<open>isStandingsValid\<close> receives whatever value was assigned to the JSON
  column, so its argument is a JavaScript value, and a number in it is any value of the
  type \<^verbatim>\<open>number\<close>: \<^verbatim>\<open>NaN\<close>, an infinity, or a finite double, which is a rational. The
  comparison \<^verbatim>\<open>n < 0\<close> is false for \<^verbatim>\<open>NaN\<close>.\<close>

datatype jsNumber = NaN | PosInfinity | NegInfinity | Finite rat

fun numberLessThanZero :: "jsNumber \<Rightarrow> bool" where
  "numberLessThanZero NaN = False"
| "numberLessThanZero PosInfinity = False"
| "numberLessThanZero NegInfinity = True"
| "numberLessThanZero (Finite q) = (q < 0)"

datatype jsValue =
    JsUndefined
  | JsNull
  | JsBoolean bool
  | JsNumber jsNumber
  | JsString string
  | JsArray "jsValue list"
  | JsObject "(string \<times> jsValue) list"

datatype jsType = TypeUndefined | TypeObject | TypeBoolean | TypeNumber | TypeString

text \<open>What the validator throws: the message \<^verbatim>\<open>Standings must be an array\<close>, the
  \<^verbatim>\<open>TypeError\<close> of a property read on \<^verbatim>\<open>null\<close> or \<^verbatim>\<open>undefined\<close>, or the message
  \<^verbatim>\<open>Entry i: ...\<close> for the entry \<open>i\<close> and the field it names.\<close>

datatype validationError =
    StandingsNotArray
  | EntryTypeError nat
  | EntryInvalid nat string

fun typeOf :: "jsValue \<Rightarrow> jsType" where
  "typeOf JsUndefined = TypeUndefined"
| "typeOf JsNull = TypeObject"
| "typeOf (JsBoolean b) = TypeBoolean"
| "typeOf (JsNumber n) = TypeNumber"
| "typeOf (JsString s) = TypeString"
| "typeOf (JsArray vs) = TypeObject"
| "typeOf (JsObject props) = TypeObject"

fun truthy :: "jsValue \<Rightarrow> bool" where
  "truthy JsUndefined = False"
| "truthy JsNull = False"
| "truthy (JsBoolean b) = b"
| "truthy (JsNumber n) = (n \<noteq> NaN \<and> n \<noteq> Finite 0)"
| "truthy (JsString s) = (s \<noteq> [])"
| "truthy (JsArray vs) = True"
| "truthy (JsObject props) = True"

fun isArray :: "jsValue \<Rightarrow> bool" where
  "isArray (JsArray vs) = True"
| "isArray v = False"

text \<open>A property read on a value that is neither \<^verbatim>\<open>null\<close> nor \<^verbatim>\<open>undefined\<close>: an object
  gives the value stored under the key, and \<^verbatim>\<open>undefined\<close> when it has none; no other
  value has one of the properties read here.\<close>

fun getProperty :: "jsValue \<Rightarrow> string \<Rightarrow> jsValue" where
  "getProperty (JsObject props) key = (case map_of props key of Some v \<Rightarrow> v | None \<Rightarrow> JsUndefined)"
| "getProperty v key = JsUndefined"

fun lessThanZero :: "jsValue \<Rightarrow> bool" where
  "lessThanZero (JsNumber n) = numberLessThanZero n"
| "lessThanZero v = False"

text \<open>The test \<^verbatim>\<open>typeof v !== 'number' || v < 0\<close> that every counter goes through.\<close>

definition notNonNegativeNumber :: "jsValue \<Rightarrow> bool" where
  "notNonNegativeNumber v = (typeOf v \<noteq> TypeNumber \<or> lessThanZero v)"

text \<open>The body of the \<^verbatim>\<open>forEach\<close> callback: the checks in the order of the source,
  each one throwing.\<close>

definition checkEntry :: "nat \<Rightarrow> jsValue \<Rightarrow> validationError + unit" where
  "checkEntry index entry =
     (if entry = JsNull \<or> entry = JsUndefined then Inl (EntryTypeError index)
      else if \<not> truthy (getProperty entry ''teamName'')
              \<or> typeOf (getProperty entry ''teamName'') \<noteq> TypeString
      then Inl (EntryInvalid index ''teamName'')
      else if notNonNegativeNumber (getProperty entry ''played'')
      then Inl (EntryInvalid index ''played'')
      else if notNonNegativeNumber (getProperty entry ''won'')
      then Inl (EntryInvalid index ''won'')
      else if notNonNegativeNumber (getProperty entry ''drawn'')
      then Inl (EntryInvalid index ''drawn'')
      else if notNonNegativeNumber (getProperty entry ''lost'')
      then Inl (EntryInvalid index ''lost'')
      else if notNonNegativeNumber (getProperty entry ''goalsFor'')
      then Inl (EntryInvalid index ''goalsFor'')
      else if notNonNegativeNumber (getProperty entry ''goalsAgainst'')
      then Inl (EntryInvalid index ''goalsAgainst'')
      else if notNonNegativeNumber (getProperty entry ''points'')
      then Inl (EntryInvalid index ''points'')
      else Inr ())"

fun checkEntries :: "nat \<Rightarrow> jsValue list \<Rightarrow> validationError + unit" where
  "checkEntries index [] = Inr ()"
| "checkEntries index (entry # entries) =
     (case checkEntry index entry of
        Inl e \<Rightarrow> Inl e
      | Inr u \<Rightarrow> checkEntries (Suc index) entries)"

definition isStandingsValid :: "jsValue \<Rightarrow> validationError + unit" where
  "isStandingsValid v =
     (if \<not> isArray v then Inl StandingsNotArray
      else (case v of JsArray entries \<Rightarrow> checkEntries 0 entries | _ \<Rightarrow> Inr ()))"

subsection \<open>The \<^verbatim>\<open>Match\<close> model\<close>

text \<open>The class \<^verbatim>\<open>Match\<close> of \<^verbatim>\<open>src/models/Cup.ts\<close>, with the fields that its score methods
  and its \<^verbatim>\<open>differentTeams\<close> validator read and write. A score handed to a method is any
  \<^verbatim>\<open>number\<close>.\<close>

datatype matchStatus = Scheduled | InProgress | Completed | Cancelled | Postponed

record Match =
  homeTeam :: string
  awayTeam :: string
  homeScore :: "jsNumber option"
  awayScore :: "jsNumber option"
  status :: matchStatus

text \<open>What the methods and the validator throw: \<^verbatim>\<open>Only in-progress matches can be completed\<close>,
  \<^verbatim>\<open>Only completed matches can have scores updated\<close>, \<^verbatim>\<open>Scores cannot be negative\<close>,
  \<^verbatim>\<open>Home and away teams must be different\<close>.\<close>

datatype matchError =
    OnlyInProgressCompleted
  | OnlyCompletedUpdated
  | ScoresNegative
  | TeamsNotDifferent

text \<open>\<^verbatim>\<open>completeMatch\<close> and \<^verbatim>\<open>updateScore\<close> up to their final \<^verbatim>\<open>await this.save()\<close>: the
  result is the error thrown or the instance that is handed to \<^verbatim>\<open>save\<close>.\<close>

definition completeMatch :: "Match \<Rightarrow> jsNumber \<Rightarrow> jsNumber \<Rightarrow> matchError + Match" where
  "completeMatch m homeScore' awayScore' =
     (if status m \<noteq> InProgress then Inl OnlyInProgressCompleted
      else if numberLessThanZero homeScore' \<or> numberLessThanZero awayScore'
      then Inl ScoresNegative
      else Inr (m\<lparr>homeScore := Some homeScore', awayScore := Some awayScore',
                  status := Completed\<rparr>))"

definition updateScore :: "Match \<Rightarrow> jsNumber \<Rightarrow> jsNumber \<Rightarrow> matchError + Match" where
  "updateScore m homeScore' awayScore' =
     (if status m \<noteq> Completed then Inl OnlyCompletedUpdated
      else if numberLessThanZero homeScore' \<or> numberLessThanZero awayScore'
      then Inl ScoresNegative
      else Inr (m\<lparr>homeScore := Some homeScore', awayScore := Some awayScore'\<rparr>))"

text \<open>The model validator \<^verbatim>\<open>differentTeams\<close>.\<close>

definition differentTeams :: "Match \<Rightarrow> matchError + unit" where
  "differentTeams m =
     (if toLowerCase (homeTeam m) = toLowerCase (awayTeam m) then Inl TeamsNotDifferent
      else Inr ())"

subsection \<open>Predicates used in the statements\<close>

text \<open>A comparator is consistent when it ranks any two elements one way or the other and
  ranks transitively: what \<^verbatim>\<open>sort\<close> needs to have a defined result.\<close>

definition consistent :: "('a \<Rightarrow> 'a \<Rightarrow> int) \<Rightarrow> bool" where
  "consistent cmp =
     ((\<forall>a b. 0 < cmp a b \<longrightarrow> cmp b a \<le> 0) \<and>
      (\<forall>a b c. cmp a b \<le> 0 \<longrightarrow> cmp b c \<le> 0 \<longrightarrow> cmp a c \<le> 0))"

text \<open>The team names of a table are pairwise different after \<^verbatim>\<open>toLowerCase\<close>.\<close>

definition distinctTeams :: "Standings \<Rightarrow> bool" where
  "distinctTeams standings = distinct (map (\<lambda>e. toLowerCase (teamName e)) standings)"

text \<open>A name of printable ASCII characters (codes 32 to 126).\<close>

definition printableAscii :: "string \<Rightarrow> bool" where
  "printableAscii s = list_all (\<lambda>c. 32 \<le> (of_char c :: nat) \<and> (of_char c :: nat) \<le> 126) s"

text \<open>The three relations between the counters of an entry that the spec lists.\<close>

definition goalDifferenceInv :: "LeaderboardEntry \<Rightarrow> bool" where
  "goalDifferenceInv e = (goalDifference e = goalsFor e - goalsAgainst e)"

definition playedInv :: "LeaderboardEntry \<Rightarrow> bool" where
  "playedInv e = (won e + drawn e + lost e = played e)"

definition pointsInv :: "LeaderboardEntry \<Rightarrow> bool" where
  "pointsInv e = (points e = 3 * won e + 1 * drawn e)"

text \<open>The entry a match result is credited to, and the credit in the words of the spec:
  one more match played, the own score added to the goals for, the opponent's score to
  the goals against, the goal difference recomputed, and a win (3 points), a draw
  (1 point) or a loss (no points) counted.\<close>

definition existingOrFresh :: "LeaderboardEntry option \<Rightarrow> string \<Rightarrow> LeaderboardEntry" where
  "existingOrFresh existingEntry name =
     (case existingEntry of Some e \<Rightarrow> e | None \<Rightarrow> freshEntry name)"

definition creditResult :: "LeaderboardEntry \<Rightarrow> int \<Rightarrow> int \<Rightarrow> LeaderboardEntry" where
  "creditResult e own opponent =
     e\<lparr>played := played e + 1,
       won := won e + (if own > opponent then 1 else 0),
       drawn := drawn e + (if own = opponent then 1 else 0),
       lost := lost e + (if own < opponent then 1 else 0),
       goalsFor := goalsFor e + own,
       goalsAgainst := goalsAgainst e + opponent,
       goalDifference := (goalsFor e + own) - (goalsAgainst e + opponent),
       points := points e + (if own > opponent then 3 else if own = opponent then 1 else 0)\<rparr>"

text \<open>The ranking rule in the words of the spec: points, then goal difference, then goals
  for, all descending, then the team name ascending under a comparison that ignores
  case.\<close>

definition caseInsensitiveCompare :: "string \<Rightarrow> string \<Rightarrow> int" where
  "caseInsensitiveCompare a b = localeCompare (toLowerCase a) (toLowerCase b)"

definition rankedNotAfter :: "LeaderboardEntry \<Rightarrow> LeaderboardEntry \<Rightarrow> bool" where
  "rankedNotAfter a b =
     (points a > points b \<or>
      (points a = points b \<and>
        (goalDifference a > goalDifference b \<or>
         (goalDifference a = goalDifference b \<and>
           (goalsFor a > goalsFor b \<or>
            (goalsFor a = goalsFor b \<and>
              caseInsensitiveCompare (teamName a) (teamName b) \<le> 0))))))"

text \<open>The entries the validator lets through: objects with a non-empty string as
  \<^verbatim>\<open>teamName\<close> and, in each of the seven counters it checks, a number that is not less
  than 0.\<close>

definition counterFields :: "string list" where
  "counterFields =
     [''played'', ''won'', ''drawn'', ''lost'', ''goalsFor'', ''goalsAgainst'', ''points'']"

definition acceptedEntry :: "jsValue \<Rightarrow> bool" where
  "acceptedEntry entry =
     ((\<exists>props. entry = JsObject props) \<and>
      (\<exists>s. getProperty entry ''teamName'' = JsString s \<and> s \<noteq> []) \<and>
      list_all (\<lambda>field. \<exists>n. getProperty entry field = JsNumber n \<and> \<not> numberLessThanZero n)
        counterFields)"

subsection \<open>Sample values\<close>

definition liveMatch :: Match where
  "liveMatch =
     \<lparr>homeTeam = ''Alpha'', awayTeam = ''Zeta'', homeScore = None, awayScore = None,
      status = InProgress\<rparr>"

definition alphaEntry :: LeaderboardEntry where
  "alphaEntry =
     \<lparr>teamName = ''Alpha'', played = 4, won = 3, drawn = 1, lost = 0, goalsFor = 5,
      goalsAgainst = 3, goalDifference = 2, points = 10\<rparr>"

definition zetaEntry :: LeaderboardEntry where
  "zetaEntry =
     \<lparr>teamName = ''Zeta'', played = 4, won = 3, drawn = 1, lost = 0, goalsFor = 5,
      goalsAgainst = 3, goalDifference = 2, points = 10\<rparr>"

definition validStandingsJson :: jsValue where
  "validStandingsJson =
     JsArray [JsObject [(''teamName'', JsString ''Alpha''), (''played'', JsNumber (Finite 1)),
       (''won'', JsNumber (Finite 1)), (''drawn'', JsNumber (Finite 0)),
       (''lost'', JsNumber (Finite 0)), (''goalsFor'', JsNumber (Finite 3)),
       (''goalsAgainst'', JsNumber NaN), (''goalDifference'', JsNumber (Finite 2)),
       (''points'', JsNumber (Finite 3))]]"

section \<open>Properties of the built-ins\<close>

subsection \<open>Stable sorting with a comparator\<close>

lemma mset_insertBy: "mset (insertBy cmp x ys) = add_mset x (mset ys)"
  by (induction ys) auto

lemma mset_sortBy: "mset (sortBy cmp xs) = mset xs"
  by (induction xs) (auto simp: mset_insertBy)

lemma set_insertBy: "set (insertBy cmp x ys) = insert x (set ys)"
  by (induction ys) auto

lemma set_sortBy: "set (sortBy cmp xs) = set xs"
  by (induction xs) (auto simp: set_insertBy)

lemma length_sortBy: "length (sortBy cmp xs) = length xs"
  using mset_sortBy [of cmp xs] by (metis size_mset)

lemma sorted_insertBy:
  assumes "consistent cmp" and "sorted_wrt (\<lambda>a b. cmp a b \<le> 0) ys"
  shows "sorted_wrt (\<lambda>a b. cmp a b \<le> 0) (insertBy cmp x ys)"
  using assms(2)
proof (induction ys)
  case Nil
  then show ?case by simp
next
  case (Cons y ys)
  show ?case
  proof (cases "cmp x y \<le> 0")
    case True
    have "\<forall>z\<in>set ys. cmp x z \<le> 0"
      using True Cons.prems assms(1) unfolding consistent_def by (metis sorted_wrt.simps(2))
    with True Cons.prems show ?thesis by simp
  next
    case False
    then have "cmp y x \<le> 0" using assms(1) unfolding consistent_def by (meson not_le)
    with False Cons show ?thesis by (auto simp: set_insertBy)
  qed
qed

lemma sorted_sortBy:
  "consistent cmp \<Longrightarrow> sorted_wrt (\<lambda>a b. cmp a b \<le> 0) (sortBy cmp xs)"
  by (induction xs) (auto simp: sorted_insertBy)

lemma sortBy_sorted:
  "sorted_wrt (\<lambda>a b. cmp a b \<le> 0) xs \<Longrightarrow> sortBy cmp xs = xs"
proof (induction xs)
  case Nil
  then show ?case by simp
next
  case (Cons x xs)
  then have "sortBy cmp xs = xs" by simp
  moreover have "insertBy cmp x xs = x # xs"
    using Cons.prems by (cases xs) auto
  ultimately show ?case by simp
qed

subsection \<open>The collation\<close>

lemma compareWeights_eq0: "compareWeights vs ws = 0 \<longleftrightarrow> vs = ws"
  by (induction vs ws rule: compareWeights.induct) auto

lemma compareWeights_same: "compareWeights ws ws = 0"
  by (simp add: compareWeights_eq0)

lemma compareWeights_flip: "compareWeights ws vs = - compareWeights vs ws"
  by (induction vs ws rule: compareWeights.induct) auto

lemma compareWeights_trans:
  "compareWeights us vs \<le> 0 \<Longrightarrow> compareWeights vs ws \<le> 0 \<Longrightarrow> compareWeights us ws \<le> 0"
proof (induction us arbitrary: vs ws)
  case Nil
  then show ?case by (cases ws) auto
next
  case (Cons u us)
  from Cons.prems(1) obtain v vs' where vs: "vs = v # vs'" by (cases vs) auto
  from Cons.prems(2) vs obtain w ws' where ws: "ws = w # ws'" by (cases ws) auto
  have uv: "u \<le> v" using Cons.prems(1) vs by (simp split: if_splits)
  have vw: "v \<le> w" using Cons.prems(2) vs ws by (simp split: if_splits)
  show ?case
  proof (cases "u < w")
    case True
    then show ?thesis using ws by simp
  next
    case False
    with uv vw have e: "u = v" "v = w" by auto
    have "compareWeights us vs' \<le> 0" using Cons.prems(1) vs e by simp
    moreover have "compareWeights vs' ws' \<le> 0" using Cons.prems(2) vs ws e by simp
    ultimately have "compareWeights us ws' \<le> 0" by (rule Cons.IH)
    then show ?thesis using ws e by simp
  qed
qed

lemma compareWeights_strict_trans:
  assumes "compareWeights us vs \<le> 0" and "compareWeights vs ws \<le> 0"
    and "compareWeights us vs < 0 \<or> compareWeights vs ws < 0"
  shows "compareWeights us ws < 0"
proof (rule ccontr)
  assume "\<not> compareWeights us ws < 0"
  then have wu: "compareWeights ws us \<le> 0"
    using compareWeights_flip [of ws us] by simp
  have "compareWeights ws vs \<le> 0" using compareWeights_trans [OF wu assms(1)] .
  moreover have "compareWeights vs us \<le> 0" using compareWeights_trans [OF assms(2) wu] .
  ultimately show False
    using assms(3) compareWeights_flip [of vs us] compareWeights_flip [of ws vs] by auto
qed

lemma indexOf_Some: "indexOf n ms = Some i \<Longrightarrow> i < length ms \<and> ms ! i = n"
  by (induction ms arbitrary: i) (auto split: if_splits option.splits)

lemma primaryWeight_inj:
  "primaryWeight c = primaryWeight d \<Longrightarrow> of_char (toLowerChar c) = (of_char (toLowerChar d) :: nat)"
  unfolding primaryWeight_def Let_def
  by (auto split: option.splits dest!: indexOf_Some)

lemma weights_inj:
  assumes "primaryWeight c = primaryWeight d" and "tertiaryWeight c = tertiaryWeight d"
  shows "c = d"
proof -
  have l: "toLowerChar c = toLowerChar d"
    using primaryWeight_inj [OF assms(1)] by simp
  have u: "isUpperCode (of_char c) \<longleftrightarrow> isUpperCode (of_char d)"
    using assms(2) by (simp add: tertiaryWeight_def split: if_splits)
  show ?thesis
  proof (cases "isUpperCode (of_char c)")
    case True
    with u have d: "isUpperCode (of_char d)" by simp
    from l True d have "char_of (of_char c + (32::nat)) = (char_of (of_char d + (32::nat)) :: char)"
      by (simp add: toLowerChar_def)
    then have "(of_char c + (32::nat)) mod 256 = (of_char d + (32::nat)) mod 256"
      by (simp add: char_of_eq_iff take_bit_eq_mod)
    moreover have "of_char c + (32::nat) < 256" "of_char d + (32::nat) < 256"
      using True d by (simp_all add: isUpperCode_def)
    ultimately have "(of_char c :: nat) = of_char d" by simp
    then show ?thesis by simp
  next
    case False
    with u l show ?thesis by (simp add: toLowerChar_def)
  qed
qed

lemma map_weights_inj:
  "map primaryWeight a = map primaryWeight b \<Longrightarrow> map tertiaryWeight a = map tertiaryWeight b
   \<Longrightarrow> a = b"
proof (induction a arbitrary: b)
  case Nil
  then show ?case by simp
next
  case (Cons c a)
  then obtain d b' where b: "b = d # b'" by (cases b) auto
  with Cons.prems have "c = d" by (auto intro: weights_inj)
  moreover have "a = b'" using Cons.prems b by (auto intro: Cons.IH)
  ultimately show ?case using b by simp
qed

lemma localeCompare_unfold:
  "localeCompare a b =
     (if compareWeights (map primaryWeight (collationElements a))
           (map primaryWeight (collationElements b)) \<noteq> 0
      then compareWeights (map primaryWeight (collationElements a))
             (map primaryWeight (collationElements b))
      else compareWeights (map tertiaryWeight (collationElements a))
             (map tertiaryWeight (collationElements b)))"
  by (simp add: localeCompare_def Let_def)

lemma localeCompare_elements_eq0:
  "localeCompare a b = 0 \<longleftrightarrow> collationElements a = collationElements b"
  unfolding localeCompare_unfold
  by (auto simp: compareWeights_eq0 intro: map_weights_inj)

lemma collationElements_printable: "printableAscii s \<Longrightarrow> collationElements s = s"
  unfolding printableAscii_def collationElements_def
  by (induction s) (auto simp: ignorableCode_def)

lemma localeCompare_eq0:
  "printableAscii a \<Longrightarrow> printableAscii b \<Longrightarrow> localeCompare a b = 0 \<longleftrightarrow> a = b"
  by (simp add: localeCompare_elements_eq0 collationElements_printable)

lemma localeCompare_flip: "localeCompare b a = - localeCompare a b"
  unfolding localeCompare_unfold
  using compareWeights_flip [of "map primaryWeight (collationElements b)"
          "map primaryWeight (collationElements a)"]
        compareWeights_flip [of "map tertiaryWeight (collationElements b)"
          "map tertiaryWeight (collationElements a)"]
  by simp

lemma localeCompare_trans:
  assumes "localeCompare a b \<le> 0" and "localeCompare b c \<le> 0"
  shows "localeCompare a c \<le> 0"
proof -
  let ?p = "\<lambda>x y. compareWeights (map primaryWeight (collationElements x))
              (map primaryWeight (collationElements y))"
  let ?t = "\<lambda>x y. compareWeights (map tertiaryWeight (collationElements x))
              (map tertiaryWeight (collationElements y))"
  have ab: "?p a b \<le> 0" using assms(1) unfolding localeCompare_unfold by (auto split: if_splits)
  have bc: "?p b c \<le> 0" using assms(2) unfolding localeCompare_unfold by (auto split: if_splits)
  show ?thesis
  proof (cases "?p a b < 0 \<or> ?p b c < 0")
    case True
    then have "?p a c < 0" using compareWeights_strict_trans [OF ab bc] by simp
    then show ?thesis unfolding localeCompare_unfold by simp
  next
    case False
    with ab bc have z: "?p a b = 0" "?p b c = 0" by auto
    then have e: "map primaryWeight (collationElements a) = map primaryWeight (collationElements b)"
      "map primaryWeight (collationElements b) = map primaryWeight (collationElements c)"
      by (simp_all add: compareWeights_eq0)
    have "?t a b \<le> 0" using assms(1) z unfolding localeCompare_unfold by simp
    moreover have "?t b c \<le> 0" using assms(2) z unfolding localeCompare_unfold by simp
    ultimately have "?t a c \<le> 0" by (rule compareWeights_trans)
    moreover have "?p a c = 0" using e by (simp add: compareWeights_eq0)
    ultimately show ?thesis unfolding localeCompare_unfold by simp
  qed
qed

lemma toLowerChar_lower: "\<not> isUpperCode (of_char (toLowerChar c))"
proof (cases "isUpperCode (of_char c)")
  case True
  then have "of_char c + (32::nat) < 256" by (simp add: isUpperCode_def)
  then have "of_char (char_of (of_char c + (32::nat)) :: char) = of_char c + (32::nat)"
    by simp
  with True show ?thesis by (simp add: toLowerChar_def isUpperCode_def)
next
  case False
  then show ?thesis by (simp add: toLowerChar_def)
qed

lemma toLowerChar_idem: "toLowerChar (toLowerChar c) = toLowerChar c"
  using toLowerChar_lower [of c] by (simp add: toLowerChar_def [of "toLowerChar c"])

lemma toLowerChar_ignorable:
  "ignorableCode (of_char (toLowerChar c)) \<longleftrightarrow> ignorableCode (of_char c)"
proof (cases "isUpperCode (of_char c)")
  case True
  then have "of_char c + (32::nat) < 256" by (simp add: isUpperCode_def)
  then have "of_char (char_of (of_char c + (32::nat)) :: char) = of_char c + (32::nat)"
    by simp
  with True show ?thesis by (simp add: toLowerChar_def isUpperCode_def ignorableCode_def)
next
  case False
  then show ?thesis by (simp add: toLowerChar_def)
qed

lemma collationElements_toLowerCase:
  "collationElements (toLowerCase a) = toLowerCase (collationElements a)"
  unfolding collationElements_def toLowerCase_def
  by (induction a) (simp_all add: toLowerChar_ignorable)

lemma primaryWeight_toLowerCase: "map primaryWeight (toLowerCase a) = map primaryWeight a"
  by (simp add: toLowerCase_def primaryWeight_def toLowerChar_idem)

lemma tertiaryWeight_toLowerCase:
  "map tertiaryWeight (toLowerCase a) = replicate (length a) 0"
  by (induction a) (simp_all add: toLowerCase_def tertiaryWeight_def toLowerChar_lower)

lemma caseInsensitiveCompare_primary:
  "caseInsensitiveCompare a b =
     compareWeights (map primaryWeight (collationElements a))
       (map primaryWeight (collationElements b))"
proof (cases "compareWeights (map primaryWeight (collationElements a))
                (map primaryWeight (collationElements b)) = 0")
  case True
  then have "map primaryWeight (collationElements a) = map primaryWeight (collationElements b)"
    by (simp add: compareWeights_eq0)
  then have "length (collationElements a) = length (collationElements b)"
    by (rule map_eq_imp_length_eq)
  then have "compareWeights (map tertiaryWeight (toLowerCase (collationElements a)))
               (map tertiaryWeight (toLowerCase (collationElements b))) = 0"
    by (simp add: tertiaryWeight_toLowerCase compareWeights_eq0)
  with True show ?thesis
    by (simp add: caseInsensitiveCompare_def localeCompare_unfold collationElements_toLowerCase
        primaryWeight_toLowerCase)
next
  case False
  then show ?thesis
    by (simp add: caseInsensitiveCompare_def localeCompare_unfold collationElements_toLowerCase
        primaryWeight_toLowerCase)
qed

lemma localeCompare_refines:
  "localeCompare a b \<le> 0 \<Longrightarrow> caseInsensitiveCompare a b \<le> 0"
  unfolding caseInsensitiveCompare_primary localeCompare_unfold
  by (auto simp: compareWeights_eq0 compareWeights_same split: if_splits)

lemma alpha_zeta: "localeCompare ''Alpha'' ''Zeta'' = - 1" "localeCompare ''Zeta'' ''Alpha'' = 1"
  by code_simp+

subsection \<open>The comparator of the standings\<close>

lemma compareStandings_le0:
  "compareStandings a b \<le> 0 \<longleftrightarrow>
     points b < points a \<or>
     (points b = points a \<and>
       (goalDifference b < goalDifference a \<or>
        (goalDifference b = goalDifference a \<and>
          (goalsFor b < goalsFor a \<or>
           (goalsFor b = goalsFor a \<and> localeCompare (teamName a) (teamName b) \<le> 0)))))"
  unfolding compareStandings_def by auto

lemma compareStandings_consistent: "consistent compareStandings"
  unfolding consistent_def
proof (intro conjI allI impI)
  fix a b assume "0 < compareStandings a b"
  then show "compareStandings b a \<le> 0"
    unfolding compareStandings_def
    using localeCompare_flip [of "teamName a" "teamName b"]
    by (auto split: if_splits)
next
  fix a b c
  assume "compareStandings a b \<le> 0" "compareStandings b c \<le> 0"
  then show "compareStandings a c \<le> 0"
    unfolding compareStandings_le0
    using localeCompare_trans [of "teamName a" "teamName b" "teamName c"]
    by auto
qed

lemma compareStandings_flip: "compareStandings b a = - compareStandings a b"
  unfolding compareStandings_def
  using localeCompare_flip [of "teamName b" "teamName a"] by auto

lemma compareStandings_eq0:
  assumes "printableAscii (teamName a)" and "printableAscii (teamName b)"
    and "compareStandings a b = 0"
  shows "teamName a = teamName b"
proof -
  have "localeCompare (teamName a) (teamName b) = 0"
    using assms(3) unfolding compareStandings_def by (auto split: if_splits)
  then show ?thesis using localeCompare_eq0 [OF assms(1,2)] by simp
qed

lemma compareStandings_refines: "compareStandings a b \<le> 0 \<Longrightarrow> rankedNotAfter a b"
  unfolding compareStandings_le0 rankedNotAfter_def
  using localeCompare_refines [of "teamName a" "teamName b"] by auto

lemma sorted_sortStandings:
  "sorted_wrt (\<lambda>a b. compareStandings a b \<le> 0) (sortStandings standings)"
  unfolding sortStandings_def by (rule sorted_sortBy [OF compareStandings_consistent])

subsection \<open>Searching an array\<close>

lemma findIndex_ge_m1: "- 1 \<le> findIndex p xs"
  by (induction xs) (auto simp: Let_def)

lemma findIndex_none: "findIndex p xs < 0 \<longleftrightarrow> (\<forall>x\<in>set xs. \<not> p x)"
  using findIndex_ge_m1 [of p]
  by (induction xs) (auto simp: Let_def)

lemma findIndex_split:
  "0 \<le> findIndex p xs \<Longrightarrow>
     \<exists>ys x zs. xs = ys @ x # zs \<and> p x \<and> (\<forall>y\<in>set ys. \<not> p y) \<and>
       nat (findIndex p xs) = length ys"
proof (induction xs)
  case Nil
  then show ?case by simp
next
  case (Cons a xs)
  show ?case
  proof (cases "p a")
    case True
    then have "a # xs = [] @ a # xs \<and> p a \<and> (\<forall>y\<in>set []. \<not> p y) \<and>
       nat (findIndex p (a # xs)) = length ([] :: 'a list)" by simp
    then show ?thesis by blast
  next
    case False
    with Cons.prems have ge: "0 \<le> findIndex p xs" by (simp add: Let_def split: if_splits)
    from Cons.IH [OF ge] obtain ys x zs where
      s: "xs = ys @ x # zs" "p x" "\<forall>y\<in>set ys. \<not> p y" "nat (findIndex p xs) = length ys"
      by blast
    have "nat (findIndex p (a # xs)) = length (a # ys)"
      using False ge s(4) by (simp add: Let_def nat_add_distrib)
    moreover have "a # xs = (a # ys) @ x # zs" using s(1) by simp
    moreover have "\<forall>y\<in>set (a # ys). \<not> p y" using False s(3) by simp
    ultimately show ?thesis using s(2) by blast
  qed
qed

lemma find_distinct:
  "distinct (map f xs) \<Longrightarrow> x \<in> set xs \<Longrightarrow> find (\<lambda>y. f y = f x) xs = Some x"
  by (induction xs) (auto simp: rev_image_eqI)

lemma find_none: "find p xs = None \<longleftrightarrow> (\<forall>x\<in>set xs. \<not> p x)"
  by (induction xs) auto

lemma filter_singleton_mset:
  "mset ys = mset xs \<Longrightarrow> filter p xs = [e] \<Longrightarrow> filter p ys = [e]"
proof -
  assume a: "mset ys = mset xs" "filter p xs = [e]"
  have "mset (filter p ys) = filter_mset p (mset ys)" by simp
  also have "\<dots> = filter_mset p (mset xs)" using a(1) by simp
  also have "\<dots> = mset (filter p xs)" by simp
  also have "\<dots> = {#e#}" using a(2) by simp
  finally show ?thesis by (simp only: mset_single_iff)
qed

section \<open>Properties of the methods\<close>

subsection \<open>Lookups by team name\<close>

lemma sameTeam_self: "sameTeam (teamName e) e"
  by (simp add: sameTeam_def)

lemma distinctTeams_mset:
  "mset xs = mset ys \<Longrightarrow> distinctTeams xs = distinctTeams ys"
proof -
  assume "mset xs = mset ys"
  then have "mset (map (\<lambda>e. toLowerCase (teamName e)) xs) = mset (map (\<lambda>e. toLowerCase (teamName e)) ys)"
    by simp
  then show ?thesis unfolding distinctTeams_def by (rule mset_eq_imp_distinct_iff)
qed

lemma getTeamStanding_member:
  "distinctTeams standings \<Longrightarrow> e \<in> set standings \<Longrightarrow> sameTeam name e
     \<Longrightarrow> getTeamStanding standings name = Some e"
  unfolding distinctTeams_def getTeamStanding_def sameTeam_def
  using find_distinct [of "\<lambda>e. toLowerCase (teamName e)" standings e]
  by (auto cong: find_cong)

lemma getTeamStanding_Some:
  "getTeamStanding standings name = Some e \<Longrightarrow> e \<in> set standings \<and> sameTeam name e"
  unfolding getTeamStanding_def by (auto simp: find_Some_iff)

lemma getTeamStanding_None:
  "getTeamStanding standings name = None \<longleftrightarrow> (\<forall>e\<in>set standings. \<not> sameTeam name e)"
  unfolding getTeamStanding_def by (rule find_none)

subsection \<open>Upserting an entry\<close>

lemma upsert_existing:
  assumes "0 \<le> findIndex (sameTeam (teamName entry)) standings"
  shows "\<exists>ys x zs. standings = ys @ x # zs \<and> sameTeam (teamName entry) x \<and>
             (\<forall>y\<in>set ys. \<not> sameTeam (teamName entry) y) \<and>
             mset (addOrUpdateTeam standings entry) = mset (ys @ entry # zs)"
proof -
  from findIndex_split [OF assms] obtain ys x zs where
    s: "standings = ys @ x # zs" "sameTeam (teamName entry) x"
       "\<forall>y\<in>set ys. \<not> sameTeam (teamName entry) y"
       "nat (findIndex (sameTeam (teamName entry)) standings) = length ys"
    by blast
  have "standings[nat (findIndex (sameTeam (teamName entry)) standings) := entry] = ys @ entry # zs"
    using s(1,4) by simp
  then have "mset (addOrUpdateTeam standings entry) = mset (ys @ entry # zs)"
    using assms unfolding addOrUpdateTeam_def sortStandings_def Let_def
    by (simp add: mset_sortBy)
  with s show ?thesis by blast
qed

lemma upsert_new:
  assumes "findIndex (sameTeam (teamName entry)) standings < 0"
  shows "(\<forall>y\<in>set standings. \<not> sameTeam (teamName entry) y) \<and>
         mset (addOrUpdateTeam standings entry) = mset (standings @ [entry])"
proof -
  have n: "\<forall>y\<in>set standings. \<not> sameTeam (teamName entry) y"
    using assms findIndex_none [of "sameTeam (teamName entry)" standings] by simp
  have "mset (addOrUpdateTeam standings entry) = mset (standings @ [entry])"
    using assms unfolding addOrUpdateTeam_def sortStandings_def Let_def
    by (simp add: mset_sortBy)
  with n show ?thesis by simp
qed

lemma upsert_existing_props:
  assumes d: "distinctTeams (ys @ x # zs)" and s: "sameTeam (teamName entry) x"
  shows "distinctTeams (ys @ entry # zs) \<and> filter (sameTeam (teamName entry)) (ys @ entry # zs) = [entry]"
proof -
  have k: "toLowerCase (teamName entry) = toLowerCase (teamName x)"
    using s by (simp add: sameTeam_def)
  have 1: "distinctTeams (ys @ entry # zs)"
    using d k unfolding distinctTeams_def by simp
  have "\<forall>y\<in>set ys \<union> set zs. \<not> sameTeam (teamName entry) y"
    using d k unfolding distinctTeams_def sameTeam_def by (auto simp: image_iff)
  then have "filter (sameTeam (teamName entry)) ys = []" "filter (sameTeam (teamName entry)) zs = []"
    by (auto simp: filter_empty_conv)
  then have 2: "filter (sameTeam (teamName entry)) (ys @ entry # zs) = [entry]"
    by (simp add: sameTeam_self)
  from 1 2 show ?thesis by simp
qed

lemma upsert_new_props:
  assumes d: "distinctTeams standings" and n: "\<forall>y\<in>set standings. \<not> sameTeam (teamName entry) y"
  shows "distinctTeams (standings @ [entry]) \<and>
         filter (sameTeam (teamName entry)) (standings @ [entry]) = [entry]"
proof -
  have 1: "distinctTeams (standings @ [entry])"
    using d n unfolding distinctTeams_def sameTeam_def by (auto simp: image_iff)
  have "filter (sameTeam (teamName entry)) standings = []"
    using n by (auto simp: filter_empty_conv)
  then have 2: "filter (sameTeam (teamName entry)) (standings @ [entry]) = [entry]"
    by (simp add: sameTeam_self)
  from 1 2 show ?thesis by simp
qed

lemma distinctTeams_addOrUpdateTeam:
  assumes "distinctTeams standings"
  shows "distinctTeams (addOrUpdateTeam standings entry)"
proof (cases "0 \<le> findIndex (sameTeam (teamName entry)) standings")
  case True
  from upsert_existing [OF True] obtain ys x zs where
    s: "standings = ys @ x # zs" "sameTeam (teamName entry) x"
       "mset (addOrUpdateTeam standings entry) = mset (ys @ entry # zs)"
    by blast
  have "distinctTeams (ys @ entry # zs)"
    using upsert_existing_props [of ys x zs entry] assms s(1,2) by simp
  then show ?thesis using distinctTeams_mset [OF s(3)] by simp
next
  case False
  then have lt: "findIndex (sameTeam (teamName entry)) standings < 0" by simp
  from upsert_new [OF lt] have
    n: "\<forall>y\<in>set standings. \<not> sameTeam (teamName entry) y" and
    m: "mset (addOrUpdateTeam standings entry) = mset (standings @ [entry])"
    by simp_all
  have "distinctTeams (standings @ [entry])"
    using upsert_new_props [OF assms n] by simp
  then show ?thesis using distinctTeams_mset [OF m] by simp
qed

lemma set_addOrUpdateTeam_subset:
  "set (addOrUpdateTeam standings entry) \<subseteq> insert entry (set standings)"
proof -
  have "set (standings[i := entry]) \<subseteq> insert entry (set standings)" for i
    by (rule set_update_subset_insert)
  then show ?thesis
    unfolding addOrUpdateTeam_def sortStandings_def Let_def
    by (auto simp: set_sortBy)
qed

lemma addOrUpdateTeam_members:
  "entry \<in> set (addOrUpdateTeam standings entry) \<and>
   (\<forall>x\<in>set standings. \<not> sameTeam (teamName entry) x \<longrightarrow> x \<in> set (addOrUpdateTeam standings entry))"
proof (cases "0 \<le> findIndex (sameTeam (teamName entry)) standings")
  case True
  from upsert_existing [OF True] obtain ys x zs where
    s: "standings = ys @ x # zs" "sameTeam (teamName entry) x"
       "mset (addOrUpdateTeam standings entry) = mset (ys @ entry # zs)"
    by blast
  from s(3) have "set (addOrUpdateTeam standings entry) = set (ys @ entry # zs)"
    by (rule mset_eq_setD)
  with s(1,2) show ?thesis by auto
next
  case False
  then have lt: "findIndex (sameTeam (teamName entry)) standings < 0" by simp
  from upsert_new [OF lt] have
    "mset (addOrUpdateTeam standings entry) = mset (standings @ [entry])" by simp
  then have "set (addOrUpdateTeam standings entry) = set (standings @ [entry])"
    by (rule mset_eq_setD)
  then show ?thesis by auto
qed

lemma getTeamStanding_addOrUpdateTeam:
  assumes d: "distinctTeams standings"
  shows "getTeamStanding (addOrUpdateTeam standings entry) name =
           (if sameTeam name entry then Some entry else getTeamStanding standings name)"
proof -
  let ?t = "addOrUpdateTeam standings entry"
  have d': "distinctTeams ?t" using d by (rule distinctTeams_addOrUpdateTeam)
  have mem: "entry \<in> set ?t" using addOrUpdateTeam_members by simp
  show ?thesis
  proof (cases "sameTeam name entry")
    case True
    then show ?thesis using getTeamStanding_member [OF d' mem] by simp
  next
    case False
    show ?thesis
    proof (cases "getTeamStanding standings name")
      case None
      then have "\<forall>e\<in>set standings. \<not> sameTeam name e" by (simp add: getTeamStanding_None)
      then have "\<forall>e\<in>set ?t. \<not> sameTeam name e"
        using False set_addOrUpdateTeam_subset [of standings entry] by auto
      then have "getTeamStanding ?t name = None" by (simp add: getTeamStanding_None)
      with None False show ?thesis by simp
    next
      case (Some x)
      then have x: "x \<in> set standings" "sameTeam name x" using getTeamStanding_Some by blast+
      have "\<not> sameTeam (teamName entry) x"
        using x(2) False by (auto simp: sameTeam_def)
      then have "x \<in> set ?t" using x(1) addOrUpdateTeam_members by blast
      then have "getTeamStanding ?t name = Some x"
        using getTeamStanding_member [OF d' _ x(2)] by simp
      with Some False show ?thesis by simp
    qed
  qed
qed

subsection \<open>Crediting a match result\<close>

lemma createEntryFromMatch_credit:
  "createEntryFromMatch name existingEntry isHome hs as =
     creditResult (existingOrFresh existingEntry name)
       (if isHome then hs else as) (if isHome then as else hs)"
  by (simp add: createEntryFromMatch_def creditResult_def existingOrFresh_def Let_def)

lemma creditResult_teamName: "teamName (creditResult e own opp) = teamName e"
  by (simp add: creditResult_def)

lemma creditResult_goalDifferenceInv: "goalDifferenceInv (creditResult e own opp)"
  by (simp add: creditResult_def goalDifferenceInv_def)

lemma creditResult_playedInv: "playedInv e \<Longrightarrow> playedInv (creditResult e own opp)"
  by (simp add: creditResult_def playedInv_def)

lemma creditResult_pointsInv: "pointsInv e \<Longrightarrow> pointsInv (creditResult e own opp)"
  by (simp add: creditResult_def pointsInv_def)

lemma freshEntry_invs:
  "goalDifferenceInv (freshEntry name)" "playedInv (freshEntry name)" "pointsInv (freshEntry name)"
  by (simp_all add: freshEntry_def goalDifferenceInv_def playedInv_def pointsInv_def)

lemma createEntryFromMatch_sameTeam:
  "sameTeam other (createEntryFromMatch name (getTeamStanding standings name) isHome hs as)
     \<longleftrightarrow> toLowerCase other = toLowerCase name"
proof (cases "getTeamStanding standings name")
  case None
  then show ?thesis
    by (auto simp: createEntryFromMatch_credit creditResult_teamName existingOrFresh_def
        freshEntry_def sameTeam_def)
next
  case (Some x)
  then have "sameTeam name x" using getTeamStanding_Some by blast
  then show ?thesis using Some
    by (auto simp: createEntryFromMatch_credit creditResult_teamName existingOrFresh_def
        sameTeam_def)
qed

lemma getTeamStanding_applyTeamResult:
  assumes "distinctTeams standings"
  shows "getTeamStanding (applyTeamResult standings name isHome hs as) other =
           (if toLowerCase other = toLowerCase name
            then Some (createEntryFromMatch name (getTeamStanding standings name) isHome hs as)
            else getTeamStanding standings other)"
  unfolding applyTeamResult_def
  by (simp add: getTeamStanding_addOrUpdateTeam [OF assms] createEntryFromMatch_sameTeam)

lemma distinctTeams_applyTeamResult:
  "distinctTeams standings \<Longrightarrow> distinctTeams (applyTeamResult standings name isHome hs as)"
  unfolding applyTeamResult_def by (rule distinctTeams_addOrUpdateTeam)

lemma getTeamStanding_applyMatchResult_same:
  assumes d: "distinctTeams standings" and eq: "toLowerCase home = toLowerCase away"
  shows "getTeamStanding (applyMatchResult standings home away hs as) home =
           Some (creditResult
                  (creditResult (existingOrFresh (getTeamStanding standings home) home) hs as)
                  as hs)"
proof -
  let ?t = "applyTeamResult standings home True hs as"
  let ?e = "createEntryFromMatch home (getTeamStanding standings home) True hs as"
  have d': "distinctTeams ?t" using d by (rule distinctTeams_applyTeamResult)
  have a: "getTeamStanding ?t away = Some ?e"
    using eq by (simp add: getTeamStanding_applyTeamResult [OF d])
  have "getTeamStanding (applyTeamResult ?t away False hs as) home =
          Some (createEntryFromMatch away (getTeamStanding ?t away) False hs as)"
    using eq by (simp add: getTeamStanding_applyTeamResult [OF d'])
  then show ?thesis
    unfolding applyMatchResult_def a
    by (simp add: createEntryFromMatch_credit existingOrFresh_def)
qed

lemma applyTeamResult_preserves:
  assumes step: "\<And>e. P e \<Longrightarrow> P (creditResult e (if isHome then hs else as) (if isHome then as else hs))"
    and fresh: "P (freshEntry name)"
    and inv: "\<forall>e\<in>set standings. P e"
  shows "\<forall>e\<in>set (applyTeamResult standings name isHome hs as). P e"
proof -
  have "P (existingOrFresh (getTeamStanding standings name) name)"
  proof (cases "getTeamStanding standings name")
    case None
    then show ?thesis using fresh by (simp add: existingOrFresh_def)
  next
    case (Some x)
    then have "x \<in> set standings" using getTeamStanding_Some by blast
    with inv Some show ?thesis by (simp add: existingOrFresh_def)
  qed
  then have "P (createEntryFromMatch name (getTeamStanding standings name) isHome hs as)"
    unfolding createEntryFromMatch_credit by (rule step)
  with inv show ?thesis
    unfolding applyTeamResult_def
    using set_addOrUpdateTeam_subset
      [of standings "createEntryFromMatch name (getTeamStanding standings name) isHome hs as"]
    by auto
qed

lemma applyMatchResult_preserves:
  assumes step: "\<And>e own opp. P e \<Longrightarrow> P (creditResult e own opp)"
    and fresh: "\<And>name. P (freshEntry name)"
    and inv: "\<forall>e\<in>set standings. P e"
  shows "\<forall>e\<in>set (applyMatchResult standings home away hs as). P e"
  unfolding applyMatchResult_def
  by (intro applyTeamResult_preserves step fresh inv)

lemma applyMatches_preserves:
  assumes step: "\<And>e own opp. P e \<Longrightarrow> P (creditResult e own opp)"
    and fresh: "\<And>name. P (freshEntry name)"
  shows "\<forall>e\<in>set standings. P e \<Longrightarrow> \<forall>e\<in>set (applyMatches standings ms). P e"
proof (induction ms arbitrary: standings)
  case Nil
  then show ?case by simp
next
  case (Cons m ms)
  obtain h a hs as where m: "m = (h, a, hs, as)" by (cases m) auto
  have "\<forall>e\<in>set (applyMatchResult standings h a hs as). P e"
    using applyMatchResult_preserves [of P standings h a hs as] step fresh Cons.prems by blast
  then show ?case using Cons.IH m by simp
qed

subsection \<open>The validator\<close>

lemma notNonNegativeNumber_iff:
  "\<not> notNonNegativeNumber v \<longleftrightarrow> (\<exists>n. v = JsNumber n \<and> \<not> numberLessThanZero n)"
  by (cases v) (auto simp: notNonNegativeNumber_def)

lemma nonEmptyString_iff:
  "\<not> (\<not> truthy v \<or> typeOf v \<noteq> TypeString) \<longleftrightarrow> (\<exists>s. v = JsString s \<and> s \<noteq> [])"
  by (cases v) auto

lemma checkEntry_ok: "checkEntry index entry = Inr () \<longleftrightarrow> acceptedEntry entry"
proof (cases "\<exists>props. entry = JsObject props")
  case True
  then have "entry \<noteq> JsNull" "entry \<noteq> JsUndefined" by auto
  then have "checkEntry index entry = Inr () \<longleftrightarrow>
     \<not> (\<not> truthy (getProperty entry ''teamName'') \<or> typeOf (getProperty entry ''teamName'') \<noteq> TypeString) \<and>
     \<not> notNonNegativeNumber (getProperty entry ''played'') \<and>
     \<not> notNonNegativeNumber (getProperty entry ''won'') \<and>
     \<not> notNonNegativeNumber (getProperty entry ''drawn'') \<and>
     \<not> notNonNegativeNumber (getProperty entry ''lost'') \<and>
     \<not> notNonNegativeNumber (getProperty entry ''goalsFor'') \<and>
     \<not> notNonNegativeNumber (getProperty entry ''goalsAgainst'') \<and>
     \<not> notNonNegativeNumber (getProperty entry ''points'')"
    unfolding checkEntry_def by auto
  then show ?thesis
    unfolding notNonNegativeNumber_iff nonEmptyString_iff acceptedEntry_def counterFields_def
    using True by simp
next
  case False
  then have "getProperty entry ''teamName'' = JsUndefined" by (cases entry) auto
  then have "checkEntry index entry \<noteq> Inr ()" by (simp add: checkEntry_def)
  with False show ?thesis by (simp add: acceptedEntry_def)
qed

lemma checkEntries_ok:
  "checkEntries index entries = Inr () \<longleftrightarrow> list_all acceptedEntry entries"
proof (induction entries arbitrary: index)
  case Nil
  then show ?case by simp
next
  case (Cons e es)
  show ?case
  proof (cases "checkEntry index e")
    case (Inl err)
    then have "\<not> acceptedEntry e" using checkEntry_ok [of index e] by auto
    with Inl show ?thesis by simp
  next
    case (Inr u)
    then have "acceptedEntry e" using checkEntry_ok [of index e] by auto
    with Inr Cons.IH show ?thesis by simp
  qed
qed

section \<open>The claims\<close>

subsection \<open>C1: crediting a match result\<close>

text \<open>C1. \<^verbatim>\<open>createEntryFromMatch\<close> returns the entry it was given, or a fresh zeroed one,
  with one more match played, the team's own score added to its goals for, the opponent's
  score added to its goals against, the goal difference recomputed, and with a win and
  3 points for the strictly greater score, a draw and 1 point for equal scores, a loss
  and no points for the lesser score. In a table with pairwise different names, after the
  result of a match between two different teams has been applied, the entry found under
  each team's name is the old entry of that team with this credit. From fresh entries a
  3-1 home win gives the two entries of the spec's example.\<close>

theorem applyMatchResult_credits:
  "createEntryFromMatch name existingEntry isHome hs as =
     creditResult (existingOrFresh existingEntry name)
       (if isHome then hs else as) (if isHome then as else hs) \<and>
   (distinctTeams standings \<and> toLowerCase home \<noteq> toLowerCase away \<longrightarrow>
      getTeamStanding (applyMatchResult standings home away hs as) home =
        Some (creditResult (existingOrFresh (getTeamStanding standings home) home) hs as) \<and>
      getTeamStanding (applyMatchResult standings home away hs as) away =
        Some (creditResult (existingOrFresh (getTeamStanding standings away) away) as hs)) \<and>
   createEntryFromMatch ''A'' None True 3 1 =
     \<lparr>teamName = ''A'', played = 1, won = 1, drawn = 0, lost = 0, goalsFor = 3,
      goalsAgainst = 1, goalDifference = 2, points = 3\<rparr> \<and>
   createEntryFromMatch ''B'' None False 3 1 =
     \<lparr>teamName = ''B'', played = 1, won = 0, drawn = 0, lost = 1, goalsFor = 1,
      goalsAgainst = 3, goalDifference = - 2, points = 0\<rparr>"
proof -
  have 1: "createEntryFromMatch name existingEntry isHome hs as =
     creditResult (existingOrFresh existingEntry name)
       (if isHome then hs else as) (if isHome then as else hs)"
    by (rule createEntryFromMatch_credit)
  have 2: "getTeamStanding (applyMatchResult standings home away hs as) home =
        Some (creditResult (existingOrFresh (getTeamStanding standings home) home) hs as) \<and>
      getTeamStanding (applyMatchResult standings home away hs as) away =
        Some (creditResult (existingOrFresh (getTeamStanding standings away) away) as hs)"
    if d: "distinctTeams standings" and ne: "toLowerCase home \<noteq> toLowerCase away"
  proof -
    let ?t = "applyTeamResult standings home True hs as"
    have d': "distinctTeams ?t" using d by (rule distinctTeams_applyTeamResult)
    have a: "getTeamStanding ?t away = getTeamStanding standings away"
      using ne by (auto simp: getTeamStanding_applyTeamResult [OF d])
    have h: "getTeamStanding ?t home = Some (createEntryFromMatch home (getTeamStanding standings home) True hs as)"
      by (simp add: getTeamStanding_applyTeamResult [OF d])
    show ?thesis
      unfolding applyMatchResult_def
      using ne a h
      by (simp add: getTeamStanding_applyTeamResult [OF d'] createEntryFromMatch_credit)
  qed
  have 3: "createEntryFromMatch ''A'' None True 3 1 =
     \<lparr>teamName = ''A'', played = 1, won = 1, drawn = 0, lost = 0, goalsFor = 3,
      goalsAgainst = 1, goalDifference = 2, points = 3\<rparr>"
    by (simp add: createEntryFromMatch_def freshEntry_def Let_def)
  have 4: "createEntryFromMatch ''B'' None False 3 1 =
     \<lparr>teamName = ''B'', played = 1, won = 0, drawn = 0, lost = 1, goalsFor = 1,
      goalsAgainst = 3, goalDifference = - 2, points = 0\<rparr>"
    by (simp add: createEntryFromMatch_def freshEntry_def Let_def)
  from 1 2 3 4 show ?thesis by blast
qed

theorem applyMatchResult_credits_witness:
  "distinctTeams [zetaEntry] \<and> toLowerCase ''Alpha'' \<noteq> toLowerCase ''zeta'' \<and>
   getTeamStanding (applyMatchResult [zetaEntry] ''Alpha'' ''zeta'' 3 1) ''Alpha'' =
     Some \<lparr>teamName = ''Alpha'', played = 1, won = 1, drawn = 0, lost = 0, goalsFor = 3,
           goalsAgainst = 1, goalDifference = 2, points = 3\<rparr> \<and>
   getTeamStanding (applyMatchResult [zetaEntry] ''Alpha'' ''zeta'' 3 1) ''zeta'' =
     Some \<lparr>teamName = ''Zeta'', played = 5, won = 3, drawn = 1, lost = 1, goalsFor = 6,
           goalsAgainst = 6, goalDifference = 0, points = 10\<rparr>"
proof -
  have h: "distinctTeams [zetaEntry] \<and> toLowerCase ''Alpha'' \<noteq> toLowerCase ''zeta''"
    by code_simp
  have e1: "creditResult (existingOrFresh (getTeamStanding [zetaEntry] ''Alpha'') ''Alpha'') 3 1 =
     \<lparr>teamName = ''Alpha'', played = 1, won = 1, drawn = 0, lost = 0, goalsFor = 3,
      goalsAgainst = 1, goalDifference = 2, points = 3\<rparr>"
    by code_simp
  have e2: "creditResult (existingOrFresh (getTeamStanding [zetaEntry] ''zeta'') ''zeta'') 1 3 =
     \<lparr>teamName = ''Zeta'', played = 5, won = 3, drawn = 1, lost = 1, goalsFor = 6,
      goalsAgainst = 6, goalDifference = 0, points = 10\<rparr>"
    by code_simp
  note r = applyMatchResult_credits [where standings = "[zetaEntry]" and home = "''Alpha''"
        and away = "''zeta''" and hs = 3 and as = 1, THEN conjunct2, THEN conjunct1, THEN mp, OF h]
  show ?thesis
    using h r unfolding e1 e2 by blast
qed

subsection \<open>C2: the ranking\<close>

text \<open>C2. \<^verbatim>\<open>sortStandings\<close> rearranges the table so that it is ordered by points
  descending, then goal difference descending, then goals for descending, then team name
  ascending under the comparison that ignores case; it is ordered by the comparator of
  the source as well, which ranks names alike up to case lower case first. Two entries
  named Zeta and Alpha with equal points, goal difference and goals for come out with
  Alpha first.\<close>

theorem sortStandings_ranking:
  "mset (sortStandings standings) = mset standings \<and>
   sorted_wrt (\<lambda>a b. compareStandings a b \<le> 0) (sortStandings standings) \<and>
   sorted_wrt rankedNotAfter (sortStandings standings) \<and>
   sortStandings
     [\<lparr>teamName = ''Zeta'', played = p, won = w, drawn = d, lost = l, goalsFor = gf,
       goalsAgainst = ga, goalDifference = 2, points = 10\<rparr>,
      \<lparr>teamName = ''Alpha'', played = p', won = w', drawn = d', lost = l', goalsFor = gf,
       goalsAgainst = ga', goalDifference = 2, points = 10\<rparr>] =
     [\<lparr>teamName = ''Alpha'', played = p', won = w', drawn = d', lost = l', goalsFor = gf,
       goalsAgainst = ga', goalDifference = 2, points = 10\<rparr>,
      \<lparr>teamName = ''Zeta'', played = p, won = w, drawn = d, lost = l, goalsFor = gf,
       goalsAgainst = ga, goalDifference = 2, points = 10\<rparr>]"
proof -
  have 1: "mset (sortStandings standings) = mset standings"
    by (simp add: sortStandings_def mset_sortBy)
  have 2: "sorted_wrt (\<lambda>a b. compareStandings a b \<le> 0) (sortStandings standings)"
    by (rule sorted_sortStandings)
  have 3: "sorted_wrt rankedNotAfter (sortStandings standings)"
    using 2 by (rule sorted_wrt_mono_rel [rotated]) (simp add: compareStandings_refines)
  have 4: "sortStandings
     [\<lparr>teamName = ''Zeta'', played = p, won = w, drawn = d, lost = l, goalsFor = gf,
       goalsAgainst = ga, goalDifference = 2, points = 10\<rparr>,
      \<lparr>teamName = ''Alpha'', played = p', won = w', drawn = d', lost = l', goalsFor = gf,
       goalsAgainst = ga', goalDifference = 2, points = 10\<rparr>] =
     [\<lparr>teamName = ''Alpha'', played = p', won = w', drawn = d', lost = l', goalsFor = gf,
       goalsAgainst = ga', goalDifference = 2, points = 10\<rparr>,
      \<lparr>teamName = ''Zeta'', played = p, won = w, drawn = d, lost = l, goalsFor = gf,
       goalsAgainst = ga, goalDifference = 2, points = 10\<rparr>]"
    by (simp add: sortStandings_def compareStandings_def alpha_zeta)
  from 1 2 3 4 show ?thesis by blast
qed

theorem sortStandings_ranking_witness:
  "mset (sortStandings [zetaEntry, alphaEntry]) = mset [zetaEntry, alphaEntry] \<and>
   sorted_wrt rankedNotAfter (sortStandings [zetaEntry, alphaEntry]) \<and>
   sortStandings [zetaEntry, alphaEntry] = [alphaEntry, zetaEntry]"
proof -
  note r = sortStandings_ranking [of "[zetaEntry, alphaEntry]" 4 3 1 0 5 3 4 3 1 0 3,
      folded alphaEntry_def zetaEntry_def]
  show ?thesis
    using r by blast
qed

subsection \<open>C3: validation\<close>

text \<open>C3, as amended. Negative scores, identical team names and a non-array standings
  value are rejected, but not by \<^verbatim>\<open>createEntryFromMatch\<close>:
  \<^item> \<^verbatim>\<open>Match.completeMatch\<close> and \<^verbatim>\<open>Match.updateScore\<close> signal a failure whenever a score is
    less than 0: their status failure when the match is not in the status they need, and
    \<^verbatim>\<open>Scores cannot be negative\<close> otherwise;
  \<^item> the \<^verbatim>\<open>differentTeams\<close> validator of \<^verbatim>\<open>Match\<close> signals
    \<^verbatim>\<open>Home and away teams must be different\<close> exactly when the two names are equal ignoring
    case;
  \<^item> the \<^verbatim>\<open>isStandingsValid\<close> validator of the \<^verbatim>\<open>standings\<close> attribute signals
    \<^verbatim>\<open>Standings must be an array\<close> for every value that is not an array, and accepts an
    array exactly when every entry is an object with a non-empty string as \<^verbatim>\<open>teamName\<close>
    and, in each of \<^verbatim>\<open>played\<close>, \<^verbatim>\<open>won\<close>, \<^verbatim>\<open>drawn\<close>, \<^verbatim>\<open>lost\<close>, \<^verbatim>\<open>goalsFor\<close>, \<^verbatim>\<open>goalsAgainst\<close>
    and \<^verbatim>\<open>points\<close>, a value of type number that is not less than 0 (which \<^verbatim>\<open>NaN\<close> is);
  \<^item> \<^verbatim>\<open>createEntryFromMatch\<close> checks nothing: a negative score of the team is credited,
    lowering its goals for, with the match counted as played; and when the home and away
    names are equal ignoring case, applying the match credits both sides to the one
    entry.\<close>

theorem validation_outside_createEntryFromMatch:
  "(numberLessThanZero x \<or> numberLessThanZero y \<longrightarrow>
      completeMatch m x y =
        Inl (if status m \<noteq> InProgress then OnlyInProgressCompleted else ScoresNegative) \<and>
      updateScore m x y =
        Inl (if status m \<noteq> Completed then OnlyCompletedUpdated else ScoresNegative)) \<and>
   (differentTeams m = Inl TeamsNotDifferent \<longleftrightarrow>
      toLowerCase (homeTeam m) = toLowerCase (awayTeam m)) \<and>
   (\<not> isArray v \<longrightarrow> isStandingsValid v = Inl StandingsNotArray) \<and>
   (isStandingsValid v = Inr () \<longleftrightarrow>
      (\<exists>entries. v = JsArray entries \<and> list_all acceptedEntry entries)) \<and>
   ((if isHome then hs else as) < 0 \<longrightarrow>
      goalsFor (createEntryFromMatch name existingEntry isHome hs as) <
        goalsFor (existingOrFresh existingEntry name) \<and>
      played (createEntryFromMatch name existingEntry isHome hs as) =
        played (existingOrFresh existingEntry name) + 1) \<and>
   (distinctTeams standings \<and> toLowerCase home = toLowerCase away \<longrightarrow>
      getTeamStanding (applyMatchResult standings home away hs as) home =
        Some (creditResult
               (creditResult (existingOrFresh (getTeamStanding standings home) home) hs as)
               as hs))"
proof -
  have 1: "numberLessThanZero x \<or> numberLessThanZero y \<longrightarrow>
      completeMatch m x y =
        Inl (if status m \<noteq> InProgress then OnlyInProgressCompleted else ScoresNegative) \<and>
      updateScore m x y =
        Inl (if status m \<noteq> Completed then OnlyCompletedUpdated else ScoresNegative)"
    by (simp add: completeMatch_def updateScore_def)
  have 2: "differentTeams m = Inl TeamsNotDifferent \<longleftrightarrow>
      toLowerCase (homeTeam m) = toLowerCase (awayTeam m)"
    by (simp add: differentTeams_def)
  have 3: "\<not> isArray v \<longrightarrow> isStandingsValid v = Inl StandingsNotArray"
    by (simp add: isStandingsValid_def)
  have 4: "isStandingsValid v = Inr () \<longleftrightarrow>
      (\<exists>entries. v = JsArray entries \<and> list_all acceptedEntry entries)"
    by (cases v) (simp_all add: isStandingsValid_def checkEntries_ok)
  have 5: "(if isHome then hs else as) < 0 \<longrightarrow>
      goalsFor (createEntryFromMatch name existingEntry isHome hs as) <
        goalsFor (existingOrFresh existingEntry name) \<and>
      played (createEntryFromMatch name existingEntry isHome hs as) =
        played (existingOrFresh existingEntry name) + 1"
    by (simp add: createEntryFromMatch_credit creditResult_def)
  have 6: "distinctTeams standings \<and> toLowerCase home = toLowerCase away \<longrightarrow>
      getTeamStanding (applyMatchResult standings home away hs as) home =
        Some (creditResult
               (creditResult (existingOrFresh (getTeamStanding standings home) home) hs as)
               as hs)"
    using getTeamStanding_applyMatchResult_same by blast
  from 1 2 3 4 5 6 show ?thesis by blast
qed

theorem validation_outside_createEntryFromMatch_witness:
  "numberLessThanZero (Finite (- 1)) \<and>
   completeMatch liveMatch (Finite (- 1)) (Finite 2) = Inl ScoresNegative \<and>
   updateScore liveMatch (Finite (- 1)) (Finite 2) = Inl OnlyCompletedUpdated \<and>
   differentTeams (liveMatch\<lparr>awayTeam := ''ALPHA''\<rparr>) = Inl TeamsNotDifferent \<and>
   isStandingsValid (JsString ''standings'') = Inl StandingsNotArray \<and>
   isStandingsValid validStandingsJson = Inr () \<and>
   goalsFor (createEntryFromMatch ''Zeta'' (Some zetaEntry) True (- 2) 0) <
     goalsFor (existingOrFresh (Some zetaEntry) ''Zeta'') \<and>
   distinctTeams [zetaEntry] \<and> toLowerCase ''Zeta'' = toLowerCase ''ZETA'' \<and>
   getTeamStanding (applyMatchResult [zetaEntry] ''Zeta'' ''ZETA'' 1 0) ''Zeta'' =
     Some (creditResult
            (creditResult (existingOrFresh (getTeamStanding [zetaEntry] ''Zeta'') ''Zeta'') 1 0)
            0 1)"
proof -
  note t = validation_outside_createEntryFromMatch [where x = "Finite (- 1)" and y = "Finite 2"
      and m = liveMatch and v = "JsString ''standings''" and isHome = True and hs = "- 2"
      and as = 0 and name = "''Zeta''" and existingEntry = "Some zetaEntry"]
  note u = validation_outside_createEntryFromMatch [where m = "liveMatch\<lparr>awayTeam := ''ALPHA''\<rparr>"
      and v = validStandingsJson and standings = "[zetaEntry]" and home = "''Zeta''"
      and away = "''ZETA''" and hs = 1 and as = 0]
  have n: "numberLessThanZero (Finite (- 1))" by simp
  have st: "status liveMatch = InProgress" by (simp add: liveMatch_def)
  have 1: "completeMatch liveMatch (Finite (- 1)) (Finite 2) = Inl ScoresNegative \<and>
    updateScore liveMatch (Finite (- 1)) (Finite 2) = Inl OnlyCompletedUpdated"
    using t [THEN conjunct1, THEN mp, OF disjI1, OF n] st by simp
  have same: "toLowerCase (homeTeam (liveMatch\<lparr>awayTeam := ''ALPHA''\<rparr>)) =
    toLowerCase (awayTeam (liveMatch\<lparr>awayTeam := ''ALPHA''\<rparr>))" by code_simp
  have 2: "differentTeams (liveMatch\<lparr>awayTeam := ''ALPHA''\<rparr>) = Inl TeamsNotDifferent"
    using u [THEN conjunct2, THEN conjunct1, THEN iffD2, OF same] .
  have na: "\<not> isArray (JsString ''standings'')" by simp
  have 3: "isStandingsValid (JsString ''standings'') = Inl StandingsNotArray"
    using t [THEN conjunct2, THEN conjunct2, THEN conjunct1, THEN mp, OF na] .
  have b: "\<exists>entries. validStandingsJson = JsArray entries \<and> list_all acceptedEntry entries"
    unfolding validStandingsJson_def acceptedEntry_def counterFields_def by simp
  have 4: "isStandingsValid validStandingsJson = Inr ()"
    using u [THEN conjunct2, THEN conjunct2, THEN conjunct2, THEN conjunct1, THEN iffD2, OF b] .
  have neg: "(if True then (- 2 :: int) else 0) < 0" by simp
  have 5: "goalsFor (createEntryFromMatch ''Zeta'' (Some zetaEntry) True (- 2) 0) <
     goalsFor (existingOrFresh (Some zetaEntry) ''Zeta'')"
    using t [THEN conjunct2, THEN conjunct2, THEN conjunct2, THEN conjunct2, THEN conjunct1,
        THEN mp, OF neg] by (rule conjunct1)
  have h: "distinctTeams [zetaEntry] \<and> toLowerCase ''Zeta'' = toLowerCase ''ZETA''"
    by code_simp
  have 6: "getTeamStanding (applyMatchResult [zetaEntry] ''Zeta'' ''ZETA'' 1 0) ''Zeta'' =
     Some (creditResult
            (creditResult (existingOrFresh (getTeamStanding [zetaEntry] ''Zeta'') ''Zeta'') 1 0)
            0 1)"
    using u [THEN conjunct2, THEN conjunct2, THEN conjunct2, THEN conjunct2, THEN conjunct2,
        THEN mp, OF h] .
  from n 1 2 3 4 5 6 h show ?thesis by blast
qed

text \<open>C3 as stated fails: a negative score is credited like any other, to a fresh entry
  and to an existing one (whose counters all stay non-negative here); and when team A has
  been credited its 1-0 home win, crediting the away side of the same match to the name
  \<^verbatim>\<open>a\<close> finds the entry of A and counts the match a second time on it.\<close>

theorem createEntryFromMatch_accepts_invalid_match:
  "createEntryFromMatch ''A'' None True (- 2) 0 =
     \<lparr>teamName = ''A'', played = 1, won = 0, drawn = 0, lost = 1, goalsFor = - 2,
      goalsAgainst = 0, goalDifference = - 2, points = 0\<rparr> \<and>
   createEntryFromMatch ''Zeta'' (Some zetaEntry) True (- 2) 0 =
     \<lparr>teamName = ''Zeta'', played = 5, won = 3, drawn = 1, lost = 1, goalsFor = 3,
      goalsAgainst = 3, goalDifference = 0, points = 10\<rparr> \<and>
   addOrUpdateTeam [\<lparr>teamName = ''A'', played = 1, won = 1, drawn = 0, lost = 0, goalsFor = 1,
       goalsAgainst = 0, goalDifference = 1, points = 3\<rparr>]
     (createEntryFromMatch ''a''
        (getTeamStanding [\<lparr>teamName = ''A'', played = 1, won = 1, drawn = 0, lost = 0,
           goalsFor = 1, goalsAgainst = 0, goalDifference = 1, points = 3\<rparr>] ''a'')
        False 1 0) =
     [\<lparr>teamName = ''A'', played = 2, won = 1, drawn = 0, lost = 1, goalsFor = 1,
       goalsAgainst = 1, goalDifference = 0, points = 3\<rparr>]"
  by code_simp

subsection \<open>C4: the top of the table\<close>

text \<open>C4, as amended. \<^verbatim>\<open>getTopTeams(n)\<close> returns the empty sequence when \<open>n = 0\<close> or the
  table is empty; for \<open>n \<ge> 0\<close> it returns the first \<open>n\<close> entries in order, which are all
  entries when \<open>n\<close> is at least the length of the table; it leaves the table as it was.\<close>

theorem getTopTeams_nonnegative_count:
  "(count' = 0 \<or> standings = [] \<longrightarrow> fst (getTopTeams standings count') = []) \<and>
   (0 \<le> count' \<longrightarrow> fst (getTopTeams standings count') = take (nat count') standings) \<and>
   (int (length standings) \<le> count' \<longrightarrow> fst (getTopTeams standings count') = standings) \<and>
   snd (getTopTeams standings count') = standings"
proof -
  have slice: "0 \<le> count' \<Longrightarrow> sliceFromZero standings count' = take (nat count') standings"
    by (simp add: sliceFromZero_def Let_def min_def)
  have empty: "sliceFromZero [] count' = ([] :: LeaderboardEntry list)"
    by (simp add: sliceFromZero_def)
  have 1: "count' = 0 \<or> standings = [] \<longrightarrow> fst (getTopTeams standings count') = []"
    using slice empty by (auto simp: getTopTeams_def)
  have 2: "0 \<le> count' \<longrightarrow> fst (getTopTeams standings count') = take (nat count') standings"
    using slice by (simp add: getTopTeams_def)
  have 3: "int (length standings) \<le> count' \<longrightarrow> fst (getTopTeams standings count') = standings"
  proof
    assume len: "int (length standings) \<le> count'"
    then have "0 \<le> count'" by simp
    then have "fst (getTopTeams standings count') = take (nat count') standings"
      using slice by (simp add: getTopTeams_def)
    also have "\<dots> = standings" using len by simp
    finally show "fst (getTopTeams standings count') = standings" .
  qed
  have 4: "snd (getTopTeams standings count') = standings"
    by (simp add: getTopTeams_def)
  from 1 2 3 4 show ?thesis by blast
qed

theorem getTopTeams_nonnegative_count_witness:
  "fst (getTopTeams [alphaEntry, zetaEntry] 0) = [] \<and>
   fst (getTopTeams [alphaEntry, zetaEntry] 1) = [alphaEntry] \<and>
   fst (getTopTeams [alphaEntry, zetaEntry] 5) = [alphaEntry, zetaEntry] \<and>
   snd (getTopTeams [alphaEntry, zetaEntry] 1) = [alphaEntry, zetaEntry]"
  using getTopTeams_nonnegative_count [of 0 "[alphaEntry, zetaEntry]"]
    getTopTeams_nonnegative_count [of 1 "[alphaEntry, zetaEntry]"]
    getTopTeams_nonnegative_count [of 5 "[alphaEntry, zetaEntry]"]
  by simp

text \<open>C4 as stated fails for a negative \<open>n\<close>: \<^verbatim>\<open>slice(0, -1)\<close> counts from the end and
  returns all entries but the last.\<close>

theorem getTopTeams_negative_count:
  "fst (getTopTeams [alphaEntry, zetaEntry] (- 1)) = [alphaEntry]"
  by code_simp

subsection \<open>C5: the goal difference\<close>

text \<open>C5. When every entry of a table has \<^verbatim>\<open>goalDifference == goalsFor - goalsAgainst\<close>,
  so has every entry of the table after a match result has been applied.\<close>

theorem goalDifference_preserved:
  "(\<forall>e\<in>set standings. goalDifferenceInv e) \<longrightarrow>
   (\<forall>e\<in>set (applyMatchResult standings home away hs as). goalDifferenceInv e)"
  using applyMatchResult_preserves [of goalDifferenceInv standings home away hs as]
  by (simp add: creditResult_goalDifferenceInv freshEntry_invs)

theorem goalDifference_preserved_witness:
  "list_all goalDifferenceInv [zetaEntry] \<and>
   list_all goalDifferenceInv (applyMatchResult [zetaEntry] ''Alpha'' ''zeta'' 3 1)"
proof -
  have h: "\<forall>e\<in>set [zetaEntry]. goalDifferenceInv e" by code_simp
  note r = goalDifference_preserved [of "[zetaEntry]" "''Alpha''" "''zeta''" 3 1, THEN mp, OF h]
  show ?thesis unfolding list_all_iff using h r by blast
qed

subsection \<open>C6: matches played\<close>

text \<open>C6. When every entry of a table has \<^verbatim>\<open>won + drawn + lost == played\<close>, so has every
  entry of the table after a match result has been applied. Each call of
  \<^verbatim>\<open>createEntryFromMatch\<close> adds 1 to \<^verbatim>\<open>played\<close> and 1 to the sum of \<^verbatim>\<open>won\<close>, \<^verbatim>\<open>drawn\<close> and
  \<^verbatim>\<open>lost\<close>, none of which decreases: exactly one of the three grows by 1.\<close>

theorem played_preserved:
  "((\<forall>e\<in>set standings. playedInv e) \<longrightarrow>
    (\<forall>e\<in>set (applyMatchResult standings home away hs as). playedInv e)) \<and>
   played (createEntryFromMatch name existingEntry isHome hs as) =
     played (existingOrFresh existingEntry name) + 1 \<and>
   won (createEntryFromMatch name existingEntry isHome hs as)
     + drawn (createEntryFromMatch name existingEntry isHome hs as)
     + lost (createEntryFromMatch name existingEntry isHome hs as) =
     won (existingOrFresh existingEntry name) + drawn (existingOrFresh existingEntry name)
       + lost (existingOrFresh existingEntry name) + 1 \<and>
   won (existingOrFresh existingEntry name) \<le> won (createEntryFromMatch name existingEntry isHome hs as) \<and>
   drawn (existingOrFresh existingEntry name) \<le> drawn (createEntryFromMatch name existingEntry isHome hs as) \<and>
   lost (existingOrFresh existingEntry name) \<le> lost (createEntryFromMatch name existingEntry isHome hs as)"
proof -
  have "(\<forall>e\<in>set standings. playedInv e) \<longrightarrow>
    (\<forall>e\<in>set (applyMatchResult standings home away hs as). playedInv e)"
    using applyMatchResult_preserves [of playedInv standings home away hs as]
    by (simp add: creditResult_playedInv freshEntry_invs)
  then show ?thesis
    by (simp add: createEntryFromMatch_credit creditResult_def)
qed

theorem played_preserved_witness:
  "list_all playedInv [zetaEntry] \<and>
   list_all playedInv (applyMatchResult [zetaEntry] ''Alpha'' ''zeta'' 3 1) \<and>
   played (createEntryFromMatch ''zeta'' (Some zetaEntry) False 3 1) =
     played (existingOrFresh (Some zetaEntry) ''zeta'') + 1"
proof -
  have h: "\<forall>e\<in>set [zetaEntry]. playedInv e" by code_simp
  note t = played_preserved [of "[zetaEntry]" "''Alpha''" "''zeta''" 3 1 "''zeta''"
      "Some zetaEntry" False]
  note r = t [THEN conjunct1, THEN mp, OF h]
  note p = t [THEN conjunct2, THEN conjunct1]
  show ?thesis unfolding list_all_iff using h r p by blast
qed

subsection \<open>C7: the points\<close>

text \<open>C7. When an entry has \<^verbatim>\<open>points == 3*won + 1*drawn\<close>, so has the entry that
  \<^verbatim>\<open>createEntryFromMatch\<close> returns for it; so has the entry returned when no existing
  entry is given, and the fresh zeroed entry itself. Hence every entry has it after any
  sequence of match results applied to a table whose entries have it, the empty table
  among them.\<close>

theorem points_preserved:
  "(pointsInv e \<longrightarrow> pointsInv (createEntryFromMatch name (Some e) isHome hs as)) \<and>
   pointsInv (createEntryFromMatch name None isHome hs as) \<and>
   pointsInv (freshEntry name) \<and>
   ((\<forall>e\<in>set standings. pointsInv e) \<longrightarrow> (\<forall>e\<in>set (applyMatches standings ms). pointsInv e)) \<and>
   (\<forall>e\<in>set (applyMatches [] ms). pointsInv e)"
proof -
  have 1: "pointsInv e \<longrightarrow> pointsInv (createEntryFromMatch name (Some e) isHome hs as)"
    by (simp add: createEntryFromMatch_credit existingOrFresh_def creditResult_pointsInv)
  have 2: "pointsInv (createEntryFromMatch name None isHome hs as)"
    by (simp add: createEntryFromMatch_credit existingOrFresh_def creditResult_pointsInv freshEntry_invs)
  have 3: "(\<forall>e\<in>set t. pointsInv e) \<longrightarrow> (\<forall>e\<in>set (applyMatches t ms). pointsInv e)" for t
    using applyMatches_preserves [of pointsInv t ms]
    by (simp add: creditResult_pointsInv freshEntry_invs)
  from 3 [of "[]"] have 4: "\<forall>e\<in>set (applyMatches [] ms). pointsInv e" by simp
  from 1 2 3 4 show ?thesis by (simp add: freshEntry_invs)
qed

theorem points_preserved_witness:
  "pointsInv zetaEntry \<and>
   pointsInv (createEntryFromMatch ''zeta'' (Some zetaEntry) False 3 1) \<and>
   list_all pointsInv [zetaEntry] \<and>
   list_all pointsInv
     (applyMatches [zetaEntry] [(''Alpha'', ''zeta'', 3, 1), (''Zeta'', ''Beta'', 2, 2)]) \<and>
   list_all pointsInv (applyMatches [] [(''Alpha'', ''zeta'', 3, 1), (''Zeta'', ''Beta'', 2, 2)])"
proof -
  have h: "pointsInv zetaEntry" by code_simp
  have hs: "\<forall>e\<in>set [zetaEntry]. pointsInv e" using h by simp
  note t = points_preserved [of zetaEntry "''zeta''" False 3 1 "[zetaEntry]"
        "[(''Alpha'', ''zeta'', 3, 1), (''Zeta'', ''Beta'', 2, 2)]"]
  note a = t [THEN conjunct1, THEN mp, OF h]
  note b = t [THEN conjunct2, THEN conjunct2, THEN conjunct2, THEN conjunct1, THEN mp, OF hs]
  note c = t [THEN conjunct2, THEN conjunct2, THEN conjunct2, THEN conjunct2]
  show ?thesis unfolding list_all_iff using h hs a b c by blast
qed

subsection \<open>C8: removing a team\<close>

text \<open>C8. \<^verbatim>\<open>removeTeam\<close> returns true exactly when some entry matches the name ignoring
  case. When none does, the table stays as it is. When one does, the first matching
  entry is cut out and the entries before and after it keep their values and their order.
  In either case the entries that do not match are the same, in the same order, as
  before; in a table with pairwise different names they are the whole result, so the one
  matching entry is gone.\<close>

theorem removeTeam_first_match:
  "(fst (removeTeam standings name) \<longleftrightarrow> (\<exists>e\<in>set standings. sameTeam name e)) \<and>
   ((\<forall>e\<in>set standings. \<not> sameTeam name e) \<longrightarrow> snd (removeTeam standings name) = standings) \<and>
   ((\<exists>e\<in>set standings. sameTeam name e) \<longrightarrow>
      (\<exists>ys x zs. standings = ys @ x # zs \<and> sameTeam name x \<and>
         (\<forall>y\<in>set ys. \<not> sameTeam name y) \<and> snd (removeTeam standings name) = ys @ zs)) \<and>
   filter (\<lambda>e. \<not> sameTeam name e) (snd (removeTeam standings name)) =
     filter (\<lambda>e. \<not> sameTeam name e) standings \<and>
   (distinctTeams standings \<longrightarrow>
      snd (removeTeam standings name) = filter (\<lambda>e. \<not> sameTeam name e) standings)"
proof (cases "0 \<le> findIndex (sameTeam name) standings")
  case True
  from findIndex_split [OF True] obtain ys x zs where
    s: "standings = ys @ x # zs" "sameTeam name x" "\<forall>y\<in>set ys. \<not> sameTeam name y"
       "nat (findIndex (sameTeam name) standings) = length ys"
    by blast
  have r: "removeTeam standings name = (True, ys @ zs)"
    using True s(1,4) by (simp add: removeTeam_def spliceOne_def Let_def)
  have ex: "\<exists>e\<in>set standings. sameTeam name e" using s(1,2) by auto
  have f: "filter (\<lambda>e. \<not> sameTeam name e) (ys @ zs) = filter (\<lambda>e. \<not> sameTeam name e) standings"
    using s(1,2) by simp
  have d: "distinctTeams standings \<longrightarrow> ys @ zs = filter (\<lambda>e. \<not> sameTeam name e) standings"
  proof
    assume dt: "distinctTeams standings"
    have "\<forall>y\<in>set ys \<union> set zs. \<not> sameTeam name y"
      using dt s(1,2) unfolding distinctTeams_def sameTeam_def by (auto simp: image_iff)
    then have "filter (\<lambda>e. \<not> sameTeam name e) (ys @ zs) = ys @ zs"
      by (auto simp: filter_id_conv)
    with f show "ys @ zs = filter (\<lambda>e. \<not> sameTeam name e) standings" by simp
  qed
  have "\<exists>ys' x' zs'. standings = ys' @ x' # zs' \<and> sameTeam name x' \<and>
         (\<forall>y\<in>set ys'. \<not> sameTeam name y) \<and> snd (removeTeam standings name) = ys' @ zs'"
    using s(1,2,3) r by auto
  with r ex f d show ?thesis by auto
next
  case False
  then have n: "\<forall>e\<in>set standings. \<not> sameTeam name e"
    using findIndex_none [of "sameTeam name" standings] by simp
  have r: "removeTeam standings name = (False, standings)"
    using False by (simp add: removeTeam_def Let_def)
  have "filter (\<lambda>e. \<not> sameTeam name e) standings = standings"
    using n by (auto simp: filter_id_conv)
  with r n show ?thesis by simp
qed

theorem removeTeam_first_match_witness:
  "distinctTeams [alphaEntry, zetaEntry] \<and>
   fst (removeTeam [alphaEntry, zetaEntry] ''ZETA'') \<and>
   snd (removeTeam [alphaEntry, zetaEntry] ''ZETA'') = [alphaEntry] \<and>
   \<not> fst (removeTeam [alphaEntry, zetaEntry] ''Beta'') \<and>
   snd (removeTeam [alphaEntry, zetaEntry] ''Beta'') = [alphaEntry, zetaEntry]"
proof -
  have d: "distinctTeams [alphaEntry, zetaEntry]" by code_simp
  have z: "\<exists>e\<in>set [alphaEntry, zetaEntry]. sameTeam ''ZETA'' e" by code_simp
  have f: "filter (\<lambda>e. \<not> sameTeam ''ZETA'' e) [alphaEntry, zetaEntry] = [alphaEntry]"
    by code_simp
  have b: "\<forall>e\<in>set [alphaEntry, zetaEntry]. \<not> sameTeam ''Beta'' e" by code_simp
  note t1 = removeTeam_first_match [of "[alphaEntry, zetaEntry]" "''ZETA''"]
  note t2 = removeTeam_first_match [of "[alphaEntry, zetaEntry]" "''Beta''"]
  have 1: "fst (removeTeam [alphaEntry, zetaEntry] ''ZETA'')"
    using t1 [THEN conjunct1, THEN iffD2, OF z] .
  have 2: "snd (removeTeam [alphaEntry, zetaEntry] ''ZETA'') = [alphaEntry]"
    using t1 [THEN conjunct2, THEN conjunct2, THEN conjunct2, THEN conjunct2, THEN mp, OF d]
    unfolding f .
  have 3: "\<not> fst (removeTeam [alphaEntry, zetaEntry] ''Beta'')"
    using t2 [THEN conjunct1] b by blast
  have 4: "snd (removeTeam [alphaEntry, zetaEntry] ''Beta'') = [alphaEntry, zetaEntry]"
    using t2 [THEN conjunct2, THEN conjunct1, THEN mp, OF b] .
  from d 1 2 3 4 show ?thesis by blast
qed

subsection \<open>C9: the comparator is a total order\<close>

text \<open>C9, as amended. The comparator of \<^verbatim>\<open>sortStandings\<close> ranks any two entries one way or
  the other, ranks transitively, and changes sign when its arguments are swapped. For
  two entries whose team names are printable ASCII and different it never returns 0, so
  in a table whose team names are printable ASCII and pairwise different no two entries
  at different positions compare equal. For every table, a table that is already in the
  comparator's order comes back unchanged, and sorting twice gives what sorting once
  gives.\<close>

theorem sortStandings_total_order:
  "consistent compareStandings \<and>
   compareStandings b a = - compareStandings a b \<and>
   (printableAscii (teamName a) \<and> printableAscii (teamName b) \<and> teamName a \<noteq> teamName b \<longrightarrow>
      compareStandings a b \<noteq> 0) \<and>
   (list_all (\<lambda>e. printableAscii (teamName e)) standings \<and> distinct (map teamName standings) \<longrightarrow>
      (\<forall>i<length standings. \<forall>j<length standings.
         i \<noteq> j \<longrightarrow> compareStandings (standings ! i) (standings ! j) \<noteq> 0)) \<and>
   (sorted_wrt (\<lambda>a b. compareStandings a b \<le> 0) standings \<longrightarrow> sortStandings standings = standings) \<and>
   sortStandings (sortStandings standings) = sortStandings standings"
proof -
  have 1: "printableAscii (teamName a) \<and> printableAscii (teamName b) \<and> teamName a \<noteq> teamName b \<longrightarrow>
      compareStandings a b \<noteq> 0"
    using compareStandings_eq0 by blast
  have 2: "list_all (\<lambda>e. printableAscii (teamName e)) standings \<and> distinct (map teamName standings) \<longrightarrow>
      (\<forall>i<length standings. \<forall>j<length standings.
         i \<noteq> j \<longrightarrow> compareStandings (standings ! i) (standings ! j) \<noteq> 0)"
  proof (intro impI allI)
    fix i j
    assume h: "list_all (\<lambda>e. printableAscii (teamName e)) standings \<and> distinct (map teamName standings)"
      and i: "i < length standings" and j: "j < length standings" and ne: "i \<noteq> j"
    from h have d: "distinct (map teamName standings)" by simp
    from h i j have pr: "printableAscii (teamName (standings ! i))"
      "printableAscii (teamName (standings ! j))"
      by (simp_all add: list_all_length)
    have "map teamName standings ! i \<noteq> map teamName standings ! j"
      using d i j ne by (simp add: nth_eq_iff_index_eq del: nth_map)
    then have "teamName (standings ! i) \<noteq> teamName (standings ! j)" using i j by simp
    then show "compareStandings (standings ! i) (standings ! j) \<noteq> 0"
      using compareStandings_eq0 [OF pr] by blast
  qed
  have 3: "sorted_wrt (\<lambda>a b. compareStandings a b \<le> 0) t \<longrightarrow> sortStandings t = t" for t
    by (simp add: sortStandings_def sortBy_sorted)
  have 4: "sortStandings (sortStandings standings) = sortStandings standings"
    using 3 [of "sortStandings standings"] sorted_sortStandings by simp
  from 1 2 3 4 compareStandings_consistent compareStandings_flip show ?thesis by blast
qed

theorem sortStandings_total_order_witness:
  "printableAscii (teamName zetaEntry) \<and> printableAscii (teamName alphaEntry) \<and>
   teamName zetaEntry \<noteq> teamName alphaEntry \<and>
   compareStandings zetaEntry alphaEntry \<noteq> 0 \<and>
   list_all (\<lambda>e. printableAscii (teamName e)) [zetaEntry, alphaEntry] \<and>
   distinct (map teamName [zetaEntry, alphaEntry]) \<and>
   compareStandings ([zetaEntry, alphaEntry] ! 0) ([zetaEntry, alphaEntry] ! 1) \<noteq> 0 \<and>
   sorted_wrt (\<lambda>a b. compareStandings a b \<le> 0) [alphaEntry, zetaEntry] \<and>
   sortStandings [alphaEntry, zetaEntry] = [alphaEntry, zetaEntry] \<and>
   sortStandings (sortStandings [zetaEntry, alphaEntry]) = sortStandings [zetaEntry, alphaEntry]"
proof -
  have n: "printableAscii (teamName zetaEntry) \<and> printableAscii (teamName alphaEntry) \<and>
    teamName zetaEntry \<noteq> teamName alphaEntry" by code_simp
  have d: "list_all (\<lambda>e. printableAscii (teamName e)) [zetaEntry, alphaEntry] \<and>
    distinct (map teamName [zetaEntry, alphaEntry])" by code_simp
  have s: "sorted_wrt (\<lambda>a b. compareStandings a b \<le> 0) [alphaEntry, zetaEntry]" by code_simp
  note t1 = sortStandings_total_order [where a = zetaEntry and b = alphaEntry
      and standings = "[zetaEntry, alphaEntry]"]
  note t2 = sortStandings_total_order [where a = zetaEntry and b = alphaEntry
      and standings = "[alphaEntry, zetaEntry]"]
  note c = t1 [THEN conjunct2, THEN conjunct2]
  have 1: "compareStandings zetaEntry alphaEntry \<noteq> 0"
    using c [THEN conjunct1, THEN mp, OF n] .
  have q: "\<forall>i<length [zetaEntry, alphaEntry]. \<forall>j<length [zetaEntry, alphaEntry]. i \<noteq> j \<longrightarrow>
      compareStandings ([zetaEntry, alphaEntry] ! i) ([zetaEntry, alphaEntry] ! j) \<noteq> 0"
    using c [THEN conjunct2, THEN conjunct1, THEN mp, OF d] .
  have "0 < length [zetaEntry, alphaEntry]" "1 < length [zetaEntry, alphaEntry]" "(0::nat) \<noteq> 1"
    by simp_all
  with q have 2: "compareStandings ([zetaEntry, alphaEntry] ! 0) ([zetaEntry, alphaEntry] ! 1) \<noteq> 0"
    by blast
  have 3: "sortStandings [alphaEntry, zetaEntry] = [alphaEntry, zetaEntry]"
    using t2 [THEN conjunct2, THEN conjunct2, THEN conjunct2, THEN conjunct2, THEN conjunct1,
        THEN mp, OF s] .
  have 4: "sortStandings (sortStandings [zetaEntry, alphaEntry]) = sortStandings [zetaEntry, alphaEntry]"
    using c [THEN conjunct2, THEN conjunct2, THEN conjunct2] .
  from n d s 1 2 3 4 show ?thesis by blast
qed

text \<open>C9 as stated fails: the names \<^verbatim>\<open>a\<close> followed by the control character U+0001 and
  \<^verbatim>\<open>a\<close> are different, also after \<^verbatim>\<open>toLowerCase\<close>, yet the comparator returns 0 for two
  entries with these names and equal counters, and sorting leaves the two in whichever
  order they came.\<close>

theorem compareStandings_ties_distinct_names:
  "distinct (map teamName [freshEntry [CHR ''a'', CHR 0x01], freshEntry ''a'']) \<and>
   distinctTeams [freshEntry [CHR ''a'', CHR 0x01], freshEntry ''a''] \<and>
   compareStandings (freshEntry [CHR ''a'', CHR 0x01]) (freshEntry ''a'') = 0 \<and>
   sortStandings [freshEntry [CHR ''a'', CHR 0x01], freshEntry ''a''] =
     [freshEntry [CHR ''a'', CHR 0x01], freshEntry ''a''] \<and>
   sortStandings [freshEntry ''a'', freshEntry [CHR ''a'', CHR 0x01]] =
     [freshEntry ''a'', freshEntry [CHR ''a'', CHR 0x01]]"
  by code_simp

subsection \<open>C10: upserting keeps the names unique\<close>

text \<open>C10. In a table whose team names are pairwise different ignoring case,
  \<^verbatim>\<open>addOrUpdateTeam(entry)\<close> leaves the names pairwise different, leaves exactly one entry
  whose name matches that of \<open>entry\<close> ignoring case, namely \<open>entry\<close>, and keeps the length
  when a matching entry existed, or else adds one to it.\<close>

theorem addOrUpdateTeam_keeps_names_unique:
  assumes "distinctTeams standings"
  shows "distinctTeams (addOrUpdateTeam standings entry) \<and>
         filter (sameTeam (teamName entry)) (addOrUpdateTeam standings entry) = [entry] \<and>
         length (addOrUpdateTeam standings entry) =
           (if \<exists>x\<in>set standings. sameTeam (teamName entry) x then length standings
            else length standings + 1)"
proof (cases "0 \<le> findIndex (sameTeam (teamName entry)) standings")
  case True
  from upsert_existing [OF True] obtain ys x zs where
    s: "standings = ys @ x # zs" "sameTeam (teamName entry) x"
       "mset (addOrUpdateTeam standings entry) = mset (ys @ entry # zs)"
    by blast
  have p: "distinctTeams (ys @ entry # zs)"
          "filter (sameTeam (teamName entry)) (ys @ entry # zs) = [entry]"
    using upsert_existing_props [of ys x zs entry] assms s(1,2) by simp_all
  have 1: "distinctTeams (addOrUpdateTeam standings entry)"
    using distinctTeams_mset [OF s(3)] p(1) by simp
  have 2: "filter (sameTeam (teamName entry)) (addOrUpdateTeam standings entry) = [entry]"
    using filter_singleton_mset [OF s(3) p(2)] .
  have "length (addOrUpdateTeam standings entry) = length (ys @ entry # zs)"
    using s(3) by (metis size_mset)
  then have 3: "length (addOrUpdateTeam standings entry) = length standings"
    using s(1) by simp
  have "\<exists>x\<in>set standings. sameTeam (teamName entry) x" using s(1,2) by auto
  with 1 2 3 show ?thesis by simp
next
  case False
  then have lt: "findIndex (sameTeam (teamName entry)) standings < 0" by simp
  from upsert_new [OF lt] have
    n: "\<forall>y\<in>set standings. \<not> sameTeam (teamName entry) y" and
    m: "mset (addOrUpdateTeam standings entry) = mset (standings @ [entry])"
    by simp_all
  have p: "distinctTeams (standings @ [entry])"
          "filter (sameTeam (teamName entry)) (standings @ [entry]) = [entry]"
    using upsert_new_props [OF assms n] by simp_all
  have 1: "distinctTeams (addOrUpdateTeam standings entry)"
    using distinctTeams_mset [OF m] p(1) by simp
  have 2: "filter (sameTeam (teamName entry)) (addOrUpdateTeam standings entry) = [entry]"
    using filter_singleton_mset [OF m p(2)] .
  have "length (addOrUpdateTeam standings entry) = length (standings @ [entry])"
    using m by (metis size_mset)
  then have 3: "length (addOrUpdateTeam standings entry) = length standings + 1" by simp
  from 1 2 3 n show ?thesis by simp
qed

theorem addOrUpdateTeam_keeps_names_unique_witness:
  "distinctTeams [zetaEntry] \<and>
   distinctTeams (addOrUpdateTeam [zetaEntry] alphaEntry) \<and>
   filter (sameTeam (teamName alphaEntry)) (addOrUpdateTeam [zetaEntry] alphaEntry) = [alphaEntry] \<and>
   length (addOrUpdateTeam [zetaEntry] alphaEntry) = 2"
proof -
  have h: "distinctTeams [zetaEntry]" by code_simp
  have n: "\<not> (\<exists>x\<in>set [zetaEntry]. sameTeam (teamName alphaEntry) x)" by code_simp
  show ?thesis
    using h n addOrUpdateTeam_keeps_names_unique [OF h, of alphaEntry] by simp
qed

end
